theory Spec2Isabelle
  imports Complex_Main "HOL-Library.AList" "HOL-Library.Sublist"
begin

section \<open>Errors\<close>

text \<open>
  Every way the C++ leaves a function without a value is a constructor here:
  an exception for a numeric cell that does not parse, a \<^verbatim>\<open>std::runtime_error\<close>
  (the class the chain-linkage loop catches), a failed \<^verbatim>\<open>assert\<close> (with the line of
  \<^verbatim>\<open>mmcif.hh\<close> it stands on), a \<^verbatim>\<open>static_assert\<close> that rejects a template
  argument, and a write past the end of a fixed \<^verbatim>\<open>char\<close> buffer.
\<close>

datatype error =
    MalformedNumeric
  | RuntimeError
  | AssertionFailed nat
  | StaticAssertFailed
  | BufferOverrun

definition and_then :: "error + 'a \<Rightarrow> ('a \<Rightarrow> error + 'b) \<Rightarrow> error + 'b" where
  "and_then m f = (case m of Inl e \<Rightarrow> Inl e | Inr x \<Rightarrow> f x)"

section \<open>The data model (\<^verbatim>\<open>model.hh\<close>, as the builder uses it)\<close>

text \<open>
  Modelled from the spec: the types of \<^verbatim>\<open>model.hh\<close>, which is not among the
  sources. Each record holds the fields that \<^verbatim>\<open>structure_from_cif_block\<close> reads
  and writes. The six anisotropic components of an atom are optional, \<open>None\<close>
  being the unset sentinel of a default-constructed \<^verbatim>\<open>Atom\<close>; a chain refers to
  its entity by position in the structure's entity list (a non-owning reference),
  \<open>None\<close> for \<^verbatim>\<open>nullptr\<close>; the unit cell is its six parameters once set. A
  number is a real: rounding to the machine format is not modelled, except for the
  explicit \<^verbatim>\<open>(float)\<close> cast of the anisotropic loader.
\<close>

record Atom =
  atom_name :: string
  altloc :: char
  charge :: int
  element :: nat
  pos_x :: real
  pos_y :: real
  pos_z :: real
  occ :: real
  b_iso :: real
  u11 :: "real option"
  u22 :: "real option"
  u33 :: "real option"
  u12 :: "real option"
  u13 :: "real option"
  u23 :: "real option"

record Residue =
  seq_id :: int
  auth_seq_id :: int
  ins_code :: char
  res_name :: string
  atoms :: "Atom list"

record Chain =
  chain_name :: string
  auth_name :: string
  entity :: "nat option"
  residues :: "Residue list"

record Model =
  model_name :: string
  chains :: "Chain list"

datatype EntityType = Polymer | NonPolymer | Water | Branched | Unknown

record Entity =
  entity_id :: string
  entity_type :: EntityType
  poly_sequence :: "(int \<times> string) list"

record NCSOper =
  given :: bool
  mat :: "real list"
  vec :: "real list"

record Structure =
  st_name :: string
  cell :: "real list option"
  sg_hm :: string
  info :: "(string \<times> string) list"
  ncs :: "NCSOper list"
  entities :: "Entity list"
  models :: "Model list"

section \<open>The row source (\<^verbatim>\<open>cif.hh\<close>, \<^verbatim>\<open>numb.hh\<close>)\<close>

text \<open>
  A row of a table view gives the raw text of its cell \<open>k\<close> as \<open>row k\<close>
  (\<^verbatim>\<open>row[k]\<close>). A table view is \<open>None\<close> when the block has no such table
  (\<^verbatim>\<open>ok()\<close> is false and iterating it visits nothing), otherwise its rows in order.
  A block is known by its name and its three lookups.
\<close>

type_synonym Row = "nat \<Rightarrow> string"

type_synonym TableView = "Row list option"

record Block =
  blk_name :: string
  blk_find :: "string \<Rightarrow> string list \<Rightarrow> TableView"
  blk_find_tag :: "string \<Rightarrow> TableView"
  blk_find_string :: "string \<Rightarrow> string"

definition ok :: "TableView \<Rightarrow> bool" where
  "ok t = (t \<noteq> None)"

definition rows_of :: "TableView \<Rightarrow> Row list" where
  "rows_of t = (case t of None \<Rightarrow> [] | Some rs \<Rightarrow> rs)"

text \<open>
  What the builder takes from outside its own file: the build configuration
  (\<open>ndebug\<close>: \<^verbatim>\<open>assert\<close> is compiled out), the tokenizer's view of a cell
  (\<open>is_null\<close>, \<open>as_string\<close>), the integer readers \<^verbatim>\<open>cif::as_int\<close> with and
  without a default, the number grammar applied to a cell that is not null
  (\<open>Inl\<close>: the text is no number and the reader raises), the narrowing
  \<^verbatim>\<open>(float)\<close> cast, the sentinel \<^verbatim>\<open>Residue::UnknownId\<close>, the element and
  entity-type classifiers, \<^verbatim>\<open>TableView::one\<close> and \<^verbatim>\<open>Structure::finish\<close>.
\<close>

record env =
  ndebug :: bool
  is_null :: "string \<Rightarrow> bool"
  as_string :: "string \<Rightarrow> string"
  as_int :: "string \<Rightarrow> error + int"
  as_int_or :: "string \<Rightarrow> int \<Rightarrow> error + int"
  parse_number :: "string \<Rightarrow> error + real"
  to_float :: "real \<Rightarrow> real"
  UnknownId :: int
  find_element :: "string \<Rightarrow> nat"
  entity_type_from_string :: "string \<Rightarrow> EntityType"
  one :: "Row list \<Rightarrow> error + Row"
  finish :: "Structure \<Rightarrow> Structure"

text \<open>
  Modelled from the spec: \<^verbatim>\<open>cif::as_number\<close> (\<^verbatim>\<open>numb.hh\<close> is not among the
  sources). A cell holding a no-value marker does not raise and yields the default:
  the one the caller passes, and 0.0 for a number read with no default. Any other
  cell goes to the number grammar.
\<close>

definition as_number_or :: "env \<Rightarrow> string \<Rightarrow> real \<Rightarrow> error + real" where
  "as_number_or env s dflt = (if is_null env s then Inr dflt else parse_number env s)"

definition as_number :: "env \<Rightarrow> string \<Rightarrow> error + real" where
  "as_number env s = (if is_null env s then Inr 0 else parse_number env s)"

text \<open>\<^verbatim>\<open>assert(c)\<close> on line \<open>line\<close>: nothing when assertions are compiled out or
  \<open>c\<close> holds, otherwise the program aborts there.\<close>

definition c_assert :: "env \<Rightarrow> nat \<Rightarrow> bool \<Rightarrow> error + unit" where
  "c_assert env line c = (if ndebug env \<or> c then Inr () else Inl (AssertionFailed line))"

text \<open>\<^verbatim>\<open>s[0]\<close> of a \<^verbatim>\<open>std::string\<close>: its first character, and the
  terminating NUL when the string is empty.\<close>

definition char0 :: "string \<Rightarrow> char" where
  "char0 s = (case s of [] \<Rightarrow> CHR 0x00 | c # _ \<Rightarrow> c)"

section \<open>\<^verbatim>\<open>get_anisotropic_u\<close>\<close>

text \<open>
  The map from atom id to the six U components: an association list with one entry
  per key; \<^verbatim>\<open>aniso_map[k] = v\<close> is \<open>AList.update k v\<close>, \<^verbatim>\<open>find\<close> is
  \<open>map_of\<close>, \<^verbatim>\<open>empty()\<close> is \<open>= []\<close>. The braced initializer evaluates its six
  conversions left to right.
\<close>

type_synonym aniso_map = "(string \<times> real list) list"

definition aniso_entry :: "env \<Rightarrow> Row \<Rightarrow> error + real list" where
  "aniso_entry env ani =
     and_then (as_number env (ani 1)) (\<lambda>a1.
     and_then (as_number env (ani 2)) (\<lambda>a2.
     and_then (as_number env (ani 3)) (\<lambda>a3.
     and_then (as_number env (ani 4)) (\<lambda>a4.
     and_then (as_number env (ani 5)) (\<lambda>a5.
     and_then (as_number env (ani 6)) (\<lambda>a6.
       Inr [to_float env a1, to_float env a2, to_float env a3,
            to_float env a4, to_float env a5, to_float env a6]))))))"

fun aniso_loop :: "env \<Rightarrow> Row list \<Rightarrow> aniso_map \<Rightarrow> error + aniso_map" where
  "aniso_loop env [] m = Inr m"
| "aniso_loop env (ani # rest) m =
     and_then (aniso_entry env ani) (\<lambda>v. aniso_loop env rest (AList.update (ani 0) v m))"

definition aniso_table :: "Block \<Rightarrow> TableView" where
  "aniso_table block =
     blk_find block ''_atom_site_anisotrop.''
       [''id'', ''U[1][1]'', ''U[2][2]'', ''U[3][3]'', ''U[1][2]'', ''U[1][3]'', ''U[2][3]'']"

definition get_anisotropic_u :: "env \<Rightarrow> Block \<Rightarrow> error + aniso_map" where
  "get_anisotropic_u env block = aniso_loop env (rows_of (aniso_table block)) []"

section \<open>Find-or-add (\<^verbatim>\<open>model.hh\<close>)\<close>

text \<open>
  Modelled from the spec: \<^verbatim>\<open>find_or_add_model\<close>, \<^verbatim>\<open>find_or_add_chain\<close>,
  \<^verbatim>\<open>find_or_add_residue\<close> and \<^verbatim>\<open>find_or_add_entity\<close> (\<^verbatim>\<open>model.hh\<close> is not
  among the sources): a linear scan for the first element with the key, and a new
  element appended when there is none. A residue's key is (sequence number, author
  sequence number, insertion code, name). The pointer each returns is the position
  of the element in its list.
\<close>

fun first_index :: "('a \<Rightarrow> bool) \<Rightarrow> 'a list \<Rightarrow> nat option" where
  "first_index P [] = None"
| "first_index P (x # xs) =
     (if P x then Some 0 else map_option Suc (first_index P xs))"

definition find_or_add :: "('a \<Rightarrow> bool) \<Rightarrow> 'a \<Rightarrow> 'a list \<Rightarrow> 'a list \<times> nat" where
  "find_or_add P fresh xs =
     (case first_index P xs of Some i \<Rightarrow> (xs, i) | None \<Rightarrow> (xs @ [fresh], length xs))"

definition find_or_add_model :: "Model list \<Rightarrow> string \<Rightarrow> Model list \<times> nat" where
  "find_or_add_model ms nm =
     find_or_add (\<lambda>m. model_name m = nm) \<lparr>model_name = nm, chains = []\<rparr> ms"

definition find_or_add_chain :: "Chain list \<Rightarrow> string \<Rightarrow> Chain list \<times> nat" where
  "find_or_add_chain cs nm =
     find_or_add (\<lambda>c. chain_name c = nm)
       \<lparr>chain_name = nm, auth_name = [], entity = None, residues = []\<rparr> cs"

definition same_residue :: "int \<Rightarrow> int \<Rightarrow> char \<Rightarrow> string \<Rightarrow> Residue \<Rightarrow> bool" where
  "same_residue seq auth ins nm r =
     (seq_id r = seq \<and> auth_seq_id r = auth \<and> ins_code r = ins \<and> res_name r = nm)"

definition find_or_add_residue ::
  "Residue list \<Rightarrow> int \<Rightarrow> int \<Rightarrow> char \<Rightarrow> string \<Rightarrow> Residue list \<times> nat" where
  "find_or_add_residue rs seq auth ins nm =
     find_or_add (same_residue seq auth ins nm)
       \<lparr>seq_id = seq, auth_seq_id = auth, ins_code = ins, res_name = nm, atoms = []\<rparr> rs"

definition find_or_add_entity :: "Entity list \<Rightarrow> string \<Rightarrow> Entity list \<times> nat" where
  "find_or_add_entity es ident =
     find_or_add (\<lambda>e. entity_id e = ident)
       \<lparr>entity_id = ident, entity_type = Unknown, poly_sequence = []\<rparr> es"

text \<open>The element a pointer refers to, changed in place.\<close>

definition upd :: "nat \<Rightarrow> ('a \<Rightarrow> 'a) \<Rightarrow> 'a list \<Rightarrow> 'a list" where
  "upd i f xs = xs[i := f (xs ! i)]"

section \<open>\<^verbatim>\<open>structure_from_cif_block\<close>: the atom loop\<close>

text \<open>The columns of the atom table, the anonymous \<^verbatim>\<open>enum\<close> of the source.\<close>

abbreviation (input) kId :: nat where "kId \<equiv> 0"
abbreviation (input) kSymbol :: nat where "kSymbol \<equiv> 1"
abbreviation (input) kAtomId :: nat where "kAtomId \<equiv> 2"
abbreviation (input) kAltId :: nat where "kAltId \<equiv> 3"
abbreviation (input) kCompId :: nat where "kCompId \<equiv> 4"
abbreviation (input) kAsymId :: nat where "kAsymId \<equiv> 5"
abbreviation (input) kSeqId :: nat where "kSeqId \<equiv> 6"
abbreviation (input) kInsCode :: nat where "kInsCode \<equiv> 7"
abbreviation (input) kX :: nat where "kX \<equiv> 8"
abbreviation (input) kY :: nat where "kY \<equiv> 9"
abbreviation (input) kZ :: nat where "kZ \<equiv> 10"
abbreviation (input) kOcc :: nat where "kOcc \<equiv> 11"
abbreviation (input) kBiso :: nat where "kBiso \<equiv> 12"
abbreviation (input) kCharge :: nat where "kCharge \<equiv> 13"
abbreviation (input) kAuthSeqId :: nat where "kAuthSeqId \<equiv> 14"
abbreviation (input) kAuthAsymId :: nat where "kAuthAsymId \<equiv> 15"
abbreviation (input) kModelNum :: nat where "kModelNum \<equiv> 16"

text \<open>
  Lines 111 to 114: the model pointer. The result is the model list, the position of
  the current model in it, and the chain pointer (reset when the model changes).
\<close>

definition select_model ::
  "Model list \<Rightarrow> nat option \<Rightarrow> nat option \<Rightarrow> Row \<Rightarrow> Model list \<times> nat \<times> nat option" where
  "select_model ms model chain row =
     (let changed = (case model of None \<Rightarrow> True
                     | Some mi \<Rightarrow> row kModelNum \<noteq> model_name (ms ! mi))
      in if changed
         then (let (ms', mi') = find_or_add_model ms (row kModelNum) in (ms', mi', None))
         else (ms, the model, chain))"

text \<open>
  Lines 115 to 119: the chain pointer, in the chain list of the current model. The
  residue pointer is reset when the chain changes.
\<close>

definition select_chain ::
  "env \<Rightarrow> Chain list \<Rightarrow> nat option \<Rightarrow> nat option \<Rightarrow> Row
     \<Rightarrow> Chain list \<times> nat \<times> nat option" where
  "select_chain env cs chain resi row =
     (let changed = (case chain of None \<Rightarrow> True
                     | Some ci \<Rightarrow> row kAsymId \<noteq> chain_name (cs ! ci))
      in if changed
         then (let (cs', ci') = find_or_add_chain cs (as_string env (row kAsymId))
               in (upd ci' (\<lambda>c. c\<lparr>auth_name := as_string env (row kAuthAsymId)\<rparr>) cs',
                   ci', None))
         else (cs, the chain, resi))"

text \<open>
  Lines 123 to 125: the condition under which the row starts a residue. \<open>resi\<close> is
  the residue the pointer refers to, \<open>None\<close> for \<^verbatim>\<open>nullptr\<close>. The name is compared
  as the raw cell text.
\<close>

definition starts_new_residue ::
  "env \<Rightarrow> Residue option \<Rightarrow> Row \<Rightarrow> int \<Rightarrow> int \<Rightarrow> char \<Rightarrow> bool" where
  "starts_new_residue env resi row seq auth ins =
     (case resi of
        None \<Rightarrow> True
      | Some r \<Rightarrow>
          seq \<noteq> seq_id r \<or> row kCompId \<noteq> res_name r \<or>
          (seq = UnknownId env \<and> (auth_seq_id r \<noteq> auth \<or> ins_code r \<noteq> ins)))"

text \<open>
  Lines 120 to 132: the residue pointer, in the residue list of the current chain.
\<close>

definition select_residue ::
  "env \<Rightarrow> Residue list \<Rightarrow> nat option \<Rightarrow> Row \<Rightarrow> error + Residue list \<times> nat" where
  "select_residue env rs resi row =
     and_then (as_int_or env (row kSeqId) (UnknownId env)) (\<lambda>seq.
     and_then (as_int_or env (row kAuthSeqId) (UnknownId env)) (\<lambda>auth.
       let ins = char0 (as_string env (row kInsCode)) in
       if starts_new_residue env (map_option (\<lambda>ri. rs ! ri) resi) row seq auth ins
       then and_then (c_assert env 127 (length (row kInsCode) = 1)) (\<lambda>_.
              Inr (find_or_add_residue rs seq auth ins (as_string env (row kCompId))))
       else and_then
              (c_assert env 131
                 (auth_seq_id (rs ! the resi) = auth \<and> ins_code (rs ! the resi) = ins))
              (\<lambda>_. Inr (rs, the resi))))"

text \<open>
  Lines 144 to 154: the anisotropic components, looked up by the raw id cell, and
  only when the map is not empty.
\<close>

definition set_aniso :: "aniso_map \<Rightarrow> Row \<Rightarrow> Atom \<Rightarrow> Atom" where
  "set_aniso aniso_map row atom =
     (if aniso_map \<noteq> [] then
        (case map_of aniso_map (row kId) of
           Some ani \<Rightarrow>
             atom\<lparr>u11 := Some (ani ! 0), u22 := Some (ani ! 1), u33 := Some (ani ! 2),
                  u12 := Some (ani ! 3), u13 := Some (ani ! 4), u23 := Some (ani ! 5)\<rparr>
         | None \<Rightarrow> atom)
      else atom)"

text \<open>Lines 133 to 154: the atom of a row.\<close>

definition make_atom :: "env \<Rightarrow> aniso_map \<Rightarrow> Row \<Rightarrow> error + Atom" where
  "make_atom env aniso_map row =
     (let nm = as_string env (row kAtomId);
          alt = char0 (as_string env (row kAltId))
      in
      and_then (if is_null env (row kCharge) then Inr 0 else as_int env (row kCharge)) (\<lambda>ch.
      let el = find_element env (as_string env (row kSymbol)) in
      and_then (as_number env (row kX)) (\<lambda>x.
      and_then (as_number env (row kY)) (\<lambda>y.
      and_then (as_number env (row kZ)) (\<lambda>z.
      and_then (as_number_or env (row kOcc) 1) (\<lambda>oc.
      and_then (as_number_or env (row kBiso) 50) (\<lambda>b.
        Inr (set_aniso aniso_map row
               \<lparr>atom_name = nm, altloc = alt, charge = ch, element = el,
                pos_x = x, pos_y = y, pos_z = z, occ = oc, b_iso = b,
                u11 = None, u22 = None, u33 = None,
                u12 = None, u13 = None, u23 = None\<rparr>))))))))"

text \<open>
  The state of the loop: \<^verbatim>\<open>st.models\<close> and the three pointers. One turn of the
  loop (lines 110 to 156) moves the pointers, builds the atom and appends it to the
  residue the pointer refers to.
\<close>

record build_state =
  bs_models :: "Model list"
  cur_model :: "nat option"
  cur_chain :: "nat option"
  cur_resi :: "nat option"

definition add_atom_row ::
  "env \<Rightarrow> aniso_map \<Rightarrow> build_state \<Rightarrow> Row \<Rightarrow> error + build_state" where
  "add_atom_row env aniso_map s row =
     (let (ms, mi, chain) = select_model (bs_models s) (cur_model s) (cur_chain s) row;
          (cs, ci, resi) = select_chain env (chains (ms ! mi)) chain (cur_resi s) row
      in
      and_then (select_residue env (residues (cs ! ci)) resi row) (\<lambda>(rs, ri).
      and_then (make_atom env aniso_map row) (\<lambda>atom.
        Inr \<lparr>bs_models =
               upd mi (\<lambda>m. m\<lparr>chains :=
                 upd ci (\<lambda>c. c\<lparr>residues :=
                   upd ri (\<lambda>r. r\<lparr>atoms := atoms r @ [atom]\<rparr>) rs\<rparr>) cs\<rparr>) ms,
             cur_model = Some mi, cur_chain = Some ci, cur_resi = Some ri\<rparr>)))"

fun atom_loop ::
  "env \<Rightarrow> aniso_map \<Rightarrow> build_state \<Rightarrow> Row list \<Rightarrow> error + build_state" where
  "atom_loop env aniso_map s [] = Inr s"
| "atom_loop env aniso_map s (row # rest) =
     and_then (add_atom_row env aniso_map s row) (\<lambda>s'. atom_loop env aniso_map s' rest)"

section \<open>\<^verbatim>\<open>structure_from_cif_block\<close>: metadata, entities and chain linkage\<close>

text \<open>\<^verbatim>\<open>row.as_num(k)\<close> for each \<open>k\<close> of a list, left to right.\<close>

fun as_nums :: "env \<Rightarrow> Row \<Rightarrow> nat list \<Rightarrow> error + real list" where
  "as_nums env row [] = Inr []"
| "as_nums env row (k # ks) =
     and_then (as_number env (row k)) (\<lambda>x.
     and_then (as_nums env row ks) (\<lambda>xs. Inr (x # xs)))"

text \<open>Lines 40 to 47: the unit cell, \<open>None\<close> when the block has none.\<close>

definition cell_table :: "Block \<Rightarrow> TableView" where
  "cell_table block =
     blk_find block ''_cell.''
       [''length_a'', ''length_b'', ''length_c'',
        ''angle_alpha'', ''angle_beta'', ''angle_gamma'']"

definition read_cell :: "env \<Rightarrow> Block \<Rightarrow> error + real list option" where
  "read_cell env block =
     (if ok (cell_table block)
      then and_then (one env (rows_of (cell_table block))) (\<lambda>c.
           and_then (as_nums env c [0, 1, 2, 3, 4, 5]) (\<lambda>ps. Inr (Some ps)))
      else Inr None)"

text \<open>Lines 50 to 68: the free-text tags.\<close>

definition add_info ::
  "env \<Rightarrow> Block \<Rightarrow> string \<Rightarrow> (string \<times> string) list \<Rightarrow> (string \<times> string) list" where
  "add_info env block tag m =
     (case rows_of (blk_find_tag block tag) of
        [] \<Rightarrow> m
      | r # _ \<Rightarrow> AList.update tag (as_string env (r 0)) m)"

definition read_info :: "env \<Rightarrow> Block \<Rightarrow> (string \<times> string) list" where
  "read_info env block =
     (let old_date_tag = ''_database_PDB_rev.date_original'';
          new_date_tag = ''_pdbx_database_status.recvd_initial_deposition_date'';
          i1 = add_info env block ''_entry.id'' [];
          i2 = add_info env block ''_cell.Z_PDB'' i1;
          i3 = add_info env block ''_exptl.method'' i2;
          i4 = add_info env block ''_struct.title'' i3;
          i5 = add_info env block old_date_tag i4;
          i6 = add_info env block new_date_tag i5;
          i7 = (case (map_of i6 old_date_tag, map_of i6 new_date_tag) of
                  (Some d, None) \<Rightarrow> AList.update new_date_tag d i6
                | _ \<Rightarrow> i6);
          i8 = add_info env block ''_struct_keywords.pdbx_keywords'' i7
      in add_info env block ''_struct_keywords.text'' i8)"

text \<open>Lines 70 to 82: the NCS operators, one per row of the table.\<close>

definition ncs_oper_of :: "env \<Rightarrow> Row \<Rightarrow> error + NCSOper" where
  "ncs_oper_of env op =
     and_then (as_nums env op [0, 1, 2, 3, 4, 5, 6, 7, 8]) (\<lambda>m.
     and_then (as_nums env op [9, 10, 11]) (\<lambda>v.
       Inr \<lparr>given = (as_string env (op 12) = ''given''), mat = m, vec = v\<rparr>))"

fun ncs_loop :: "env \<Rightarrow> Row list \<Rightarrow> NCSOper list \<Rightarrow> error + NCSOper list" where
  "ncs_loop env [] acc = Inr acc"
| "ncs_loop env (op # rest) acc =
     and_then (ncs_oper_of env op) (\<lambda>x. ncs_loop env rest (acc @ [x]))"

definition ncs_table :: "Block \<Rightarrow> TableView" where
  "ncs_table block =
     blk_find block ''_struct_ncs_oper.''
       [''matrix[1][1]'', ''matrix[1][2]'', ''matrix[1][3]'',
        ''matrix[2][1]'', ''matrix[2][2]'', ''matrix[2][3]'',
        ''matrix[3][1]'', ''matrix[3][2]'', ''matrix[3][3]'',
        ''vector[1]'', ''vector[2]'', ''vector[3]'', ''code'']"

definition read_ncs :: "env \<Rightarrow> Block \<Rightarrow> error + NCSOper list" where
  "read_ncs env block = ncs_loop env (rows_of (ncs_table block)) []"

text \<open>Lines 158 to 162: one entity per row of the entity table.\<close>

definition read_entities :: "env \<Rightarrow> Block \<Rightarrow> Entity list" where
  "read_entities env block =
     map (\<lambda>row. \<lparr>entity_id = as_string env (row 0),
                 entity_type = entity_type_from_string env (as_string env (row 1)),
                 poly_sequence = []\<rparr>)
       (rows_of (blk_find block ''_entity.'' [''id'', ''type'']))"

text \<open>Lines 164 to 168: the polymer sequences.\<close>

fun poly_seq_loop :: "env \<Rightarrow> Row list \<Rightarrow> Entity list \<Rightarrow> error + Entity list" where
  "poly_seq_loop env [] es = Inr es"
| "poly_seq_loop env (row # rest) es =
     (let (es', i) = find_or_add_entity es (as_string env (row 0)) in
      and_then (as_int_or env (row 1) (- 1)) (\<lambda>num.
        poly_seq_loop env rest
          (upd i (\<lambda>e. e\<lparr>poly_sequence :=
                     poly_sequence e @ [(num, as_string env (row 2))]\<rparr>) es')))"

text \<open>
  Modelled from the spec: \<^verbatim>\<open>TableView::find_row\<close> (\<^verbatim>\<open>cif.hh\<close> is not among the
  sources): the first row whose first cell is the key; when no row has it, or the
  table is absent, it raises the \<^verbatim>\<open>std::runtime_error\<close> that line 176 catches.
\<close>

definition find_row :: "TableView \<Rightarrow> string \<Rightarrow> error + Row" where
  "find_row t s =
     (case List.find (\<lambda>r. r 0 = s) (rows_of t) of
        None \<Rightarrow> Inl RuntimeError
      | Some r \<Rightarrow> Inr r)"

text \<open>
  Lines 173 to 178, for one chain: the body of the \<^verbatim>\<open>try\<close>, and the handler, which
  takes a \<^verbatim>\<open>std::runtime_error\<close> and lets anything else through.
\<close>

definition link_chain ::
  "env \<Rightarrow> TableView \<Rightarrow> Entity list \<Rightarrow> Chain \<Rightarrow> error + Entity list \<times> Chain" where
  "link_chain env chain_to_entity es ch =
     (case and_then (find_row chain_to_entity (chain_name ch)) (\<lambda>r.
             let ent_id = as_string env (r 1);
                 (es', i) = find_or_add_entity es ent_id
             in Inr (es', ch\<lparr>entity := Some i\<rparr>)) of
        Inr res \<Rightarrow> Inr res
      | Inl RuntimeError \<Rightarrow> Inr (es, ch\<lparr>entity := None\<rparr>)
      | Inl e \<Rightarrow> Inl e)"

fun link_chains ::
  "env \<Rightarrow> TableView \<Rightarrow> Entity list \<Rightarrow> Chain list \<Rightarrow> error + Entity list \<times> Chain list" where
  "link_chains env t es [] = Inr (es, [])"
| "link_chains env t es (ch # rest) =
     and_then (link_chain env t es ch) (\<lambda>(es', ch').
     and_then (link_chains env t es' rest) (\<lambda>(es'', rest').
       Inr (es'', ch' # rest')))"

fun link_models ::
  "env \<Rightarrow> TableView \<Rightarrow> Entity list \<Rightarrow> Model list \<Rightarrow> error + Entity list \<times> Model list" where
  "link_models env t es [] = Inr (es, [])"
| "link_models env t es (md # rest) =
     and_then (link_chains env t es (chains md)) (\<lambda>(es', cs').
     and_then (link_models env t es' rest) (\<lambda>(es'', rest').
       Inr (es'', md\<lparr>chains := cs'\<rparr> # rest')))"

text \<open>The whole of \<^verbatim>\<open>structure_from_cif_block\<close>, lines 35 to 181.\<close>

definition atom_table :: "Block \<Rightarrow> TableView" where
  "atom_table block =
     blk_find block ''_atom_site.''
       [''id'', ''type_symbol'', ''label_atom_id'', ''label_alt_id'', ''label_comp_id'',
        ''label_asym_id'', ''label_seq_id'', ''pdbx_PDB_ins_code'',
        ''Cartn_x'', ''Cartn_y'', ''Cartn_z'', ''occupancy'', ''B_iso_or_equiv'',
        ''pdbx_formal_charge'', ''auth_seq_id'', ''auth_asym_id'', ''pdbx_PDB_model_num'']"

definition structure_from_cif_block :: "env \<Rightarrow> Block \<Rightarrow> error + Structure" where
  "structure_from_cif_block env block =
     and_then (read_cell env block) (\<lambda>c.
     and_then (read_ncs env block) (\<lambda>ops.
     and_then (get_anisotropic_u env block) (\<lambda>aniso_map.
     and_then (atom_loop env aniso_map
                 \<lparr>bs_models = [], cur_model = None, cur_chain = None, cur_resi = None\<rparr>
                 (rows_of (atom_table block))) (\<lambda>s.
     and_then (poly_seq_loop env
                 (rows_of (blk_find block ''_entity_poly_seq.''
                             [''entity_id'', ''num'', ''mon_id'']))
                 (read_entities env block)) (\<lambda>es.
     and_then (link_models env (blk_find block ''_struct_asym.'' [''id'', ''entity_id''])
                 es (bs_models s)) (\<lambda>(es', ms).
       Inr (finish env
              \<lparr>st_name = blk_name block, cell = c,
               sg_hm = blk_find_string block ''_symmetry.space_group_name_H-M'',
               info = read_info env block, ncs = ops,
               entities = es', models = ms\<rparr>)))))))"

section \<open>\<^verbatim>\<open>sprintf.hpp\<close>: the number formatter\<close>

text \<open>
  The values of a \<^verbatim>\<open>double\<close>: a real number, the two infinities and NaN (every
  \<^verbatim>\<open>double\<close> is one of these; the sign of zero is not kept). Comparison with a
  constant is exact, and false for NaN.
\<close>

datatype double = Finite real | PlusInf | MinusInf | NaN

definition dgt :: "double \<Rightarrow> real \<Rightarrow> bool" where
  "dgt d c = (case d of Finite x \<Rightarrow> x > c | PlusInf \<Rightarrow> True | MinusInf \<Rightarrow> False | NaN \<Rightarrow> False)"

definition dlt :: "double \<Rightarrow> real \<Rightarrow> bool" where
  "dlt d c = (case d of Finite x \<Rightarrow> x < c | PlusInf \<Rightarrow> False | MinusInf \<Rightarrow> True | NaN \<Rightarrow> False)"

text \<open>
  What the formatter takes from \<^verbatim>\<open>third_party/stb_sprintf.h\<close>, which is not among
  the sources: how a non-negative real is rounded to an integer when digits are cut
  (\<open>round_dec\<close>), and the text of the conversions \<^verbatim>\<open>%g\<close>, \<^verbatim>\<open>%.9g\<close>, \<^verbatim>\<open>%.6g\<close>, and of
  \<^verbatim>\<open>%f\<close> for an infinity or NaN.
\<close>

record fmt_env =
  round_dec :: "real \<Rightarrow> nat"
  text_g :: "double \<Rightarrow> string"
  text_g9 :: "double \<Rightarrow> string"
  text_g6 :: "double \<Rightarrow> string"
  text_f_nonfinite :: "double \<Rightarrow> string"

definition digit :: "nat \<Rightarrow> char" where
  "digit d = ''0123456789'' ! (d mod 10)"

fun pad :: "nat \<Rightarrow> nat \<Rightarrow> string" where
  "pad 0 n = []"
| "pad (Suc k) n = pad k (n div 10) @ [digit n]"

fun digits :: "nat \<Rightarrow> string" where
  "digits n = (if n < 10 then [digit n] else digits (n div 10) @ [digit n])"

text \<open>
  Modelled from the spec: the conversion \<^verbatim>\<open>%.*f\<close> of \<^verbatim>\<open>gstb_sprintf\<close>
  (\<^verbatim>\<open>third_party/stb_sprintf.h\<close> is not among the sources): the sign, the integer
  part in decimal, and, when the precision is not zero, a point and exactly
  \<open>prec\<close> digits of the value rounded at that place.
\<close>

definition text_f :: "fmt_env \<Rightarrow> nat \<Rightarrow> double \<Rightarrow> string" where
  "text_f fe prec d =
     (case d of
        Finite x \<Rightarrow>
          (let n = round_dec fe (\<bar>x\<bar> * 10 ^ prec) in
           (if x < 0 then ''-'' else []) @ digits (n div 10 ^ prec) @
           (if prec = 0 then [] else CHR ''.'' # pad prec (n mod 10 ^ prec)))
      | _ \<Rightarrow> text_f_nonfinite fe d)"

text \<open>
  \<^verbatim>\<open>gstb_sprintf(buf, ...)\<close> into a buffer of \<open>cap\<close> bytes: the text and its
  terminating NUL are written with no bound check, and the length of the text is
  returned. \<^verbatim>\<open>std::string(buf, len > 0 ? len : 0)\<close> then copies the text.
\<close>

definition gstb_sprintf :: "nat \<Rightarrow> string \<Rightarrow> error + string \<times> int" where
  "gstb_sprintf cap txt =
     (if length txt + 1 \<le> cap then Inr (txt, int (length txt)) else Inl BufferOverrun)"

definition std_string :: "string \<times> int \<Rightarrow> string" where
  "std_string r = (case r of (buf, len) \<Rightarrow> take (nat (if len > 0 then len else 0)) buf)"

definition to_str :: "fmt_env \<Rightarrow> double \<Rightarrow> error + string" where
  "to_str fe d = and_then (gstb_sprintf 24 (text_g9 fe d)) (\<lambda>r. Inr (std_string r))"

definition to_str_float :: "fmt_env \<Rightarrow> double \<Rightarrow> error + string" where
  "to_str_float fe d = and_then (gstb_sprintf 16 (text_g6 fe d)) (\<lambda>r. Inr (std_string r))"

text \<open>\<^verbatim>\<open>to_str_prec<Prec>\<close>, lines 35 to 42; \<open>prec\<close> is the template argument.\<close>

definition to_str_prec :: "fmt_env \<Rightarrow> int \<Rightarrow> double \<Rightarrow> error + string" where
  "to_str_prec fe prec d =
     (if prec \<ge> 0 \<and> prec < 7 then
        and_then (if dgt d (- 100000000) \<and> dlt d 100000000
                  then gstb_sprintf 16 (text_f fe (nat prec) d)
                  else gstb_sprintf 16 (text_g fe d))
          (\<lambda>r. Inr (std_string r))
      else Inl StaticAssertFailed)"

text \<open>The digits a text shows after its decimal point (none when it has no point).\<close>

definition frac_part :: "string \<Rightarrow> string" where
  "frac_part s = (case dropWhile (\<lambda>c. c \<noteq> CHR ''.'') s of [] \<Rightarrow> [] | _ # ds \<Rightarrow> ds)"

definition is_digit :: "char \<Rightarrow> bool" where
  "is_digit c = (c \<in> set ''0123456789'')"

section \<open>Notions used in the statements\<close>

text \<open>A numeric cell that can be read: a no-value marker, or text the number grammar
  accepts.\<close>

definition readable :: "env \<Rightarrow> string \<Rightarrow> bool" where
  "readable env s = (is_null env s \<or> \<not> isl (parse_number env s))"

text \<open>
  A required numeric field of the block fails to parse: a position cell of an atom
  row, a matrix or vector cell of an NCS row, a component cell of an anisotropic
  row, or a parameter cell of the unit-cell row makes \<^verbatim>\<open>as_number\<close> raise.
\<close>

definition required_number_fails :: "env \<Rightarrow> Block \<Rightarrow> bool" where
  "required_number_fails env block =
     (list_ex (\<lambda>row. list_ex (\<lambda>k. isl (as_number env (row k))) [kX, kY, kZ])
        (rows_of (atom_table block)) \<or>
      list_ex (\<lambda>op. list_ex (\<lambda>k. isl (as_number env (op k)))
                 [0, 1, 2, 3, 4, 5, 6, 7, 8, 9, 10, 11])
        (rows_of (ncs_table block)) \<or>
      list_ex (\<lambda>ani. list_ex (\<lambda>k. isl (as_number env (ani k))) [1, 2, 3, 4, 5, 6])
        (rows_of (aniso_table block)) \<or>
      (ok (cell_table block) \<and>
       (case one env (rows_of (cell_table block)) of
          Inl e \<Rightarrow> False
        | Inr c \<Rightarrow> list_ex (\<lambda>k. isl (as_number env (c k))) [0, 1, 2, 3, 4, 5])))"

text \<open>
  What the linkage step leaves of a chain \<open>ch\<close>: the chain \<open>ch'\<close> differs from it in
  the entity reference only; when no row of the table has the chain's name the
  reference is unset, and otherwise it refers to an entity of the list \<open>es\<close> whose id
  is the second cell of the first such row.
\<close>

definition linked :: "env \<Rightarrow> TableView \<Rightarrow> Entity list \<Rightarrow> Chain \<Rightarrow> Chain \<Rightarrow> bool" where
  "linked env t es ch ch' =
     (ch' = ch\<lparr>entity := entity ch'\<rparr> \<and>
      (case find_row t (chain_name ch) of
         Inl e \<Rightarrow> entity ch' = None
       | Inr r \<Rightarrow>
           (case entity ch' of
              None \<Rightarrow> False
            | Some i \<Rightarrow> i < length es \<and> entity_id (es ! i) = as_string env (r 1))))"

definition model_linked :: "env \<Rightarrow> TableView \<Rightarrow> Entity list \<Rightarrow> Model \<Rightarrow> Model \<Rightarrow> bool" where
  "model_linked env t es m m' =
     (model_name m' = model_name m \<and> list_all2 (linked env t es) (chains m) (chains m'))"

text \<open>The entry the loader stores for a row whose six component cells are readable.\<close>

definition entry_of :: "env \<Rightarrow> Row \<Rightarrow> real list" where
  "entry_of env ani =
     map (\<lambda>k. to_float env (if is_null env (ani k) then 0 else projr (parse_number env (ani k))))
       [1, 2, 3, 4, 5, 6]"

section \<open>Worked inputs\<close>

text \<open>
  A concrete row source for running the definitions: the no-value markers are
  \<^verbatim>\<open>?\<close> and \<^verbatim>\<open>.\<close>, a string cell is its own text, numbers are decimal integers
  with an optional minus sign, and the narrowing cast changes nothing. A block is
  given by its tables, each under its category prefix.
\<close>

definition ex_digit :: "char \<Rightarrow> nat option" where
  "ex_digit c = map_of [(CHR ''0'', 0), (CHR ''1'', 1), (CHR ''2'', 2), (CHR ''3'', 3),
     (CHR ''4'', 4), (CHR ''5'', 5), (CHR ''6'', 6), (CHR ''7'', 7), (CHR ''8'', 8),
     (CHR ''9'', 9)] c"

fun ex_nat :: "string \<Rightarrow> nat \<Rightarrow> nat option" where
  "ex_nat [] acc = Some acc"
| "ex_nat (c # cs) acc =
     (case ex_digit c of None \<Rightarrow> None | Some d \<Rightarrow> ex_nat cs (10 * acc + d))"

definition ex_int :: "string \<Rightarrow> error + int" where
  "ex_int s =
     (case s of
        [] \<Rightarrow> Inl MalformedNumeric
      | c # cs \<Rightarrow>
          if c = CHR ''-'' \<and> cs \<noteq> []
          then (case ex_nat cs 0 of None \<Rightarrow> Inl MalformedNumeric | Some n \<Rightarrow> Inr (- int n))
          else (case ex_nat s 0 of None \<Rightarrow> Inl MalformedNumeric | Some n \<Rightarrow> Inr (int n)))"

definition ex_number :: "string \<Rightarrow> error + real" where
  "ex_number s = (case ex_int s of Inl e \<Rightarrow> Inl e | Inr n \<Rightarrow> Inr (real_of_int n))"

definition ex_null :: "string \<Rightarrow> bool" where
  "ex_null s = (s = ''?'' \<or> s = ''.'')"

definition ex_env :: "bool \<Rightarrow> env" where
  "ex_env nd =
     \<lparr>ndebug = nd,
      is_null = ex_null,
      as_string = (\<lambda>s. if ex_null s then [] else s),
      as_int = ex_int,
      as_int_or = (\<lambda>s dflt. if ex_null s then Inr dflt else ex_int s),
      parse_number = ex_number,
      to_float = (\<lambda>x. x),
      UnknownId = - 1000,
      find_element = length,
      entity_type_from_string =
        (\<lambda>s. if s = ''polymer'' then Polymer else if s = ''water'' then Water else Unknown),
      one = (\<lambda>rs. case rs of [r] \<Rightarrow> Inr r | _ \<Rightarrow> Inl RuntimeError),
      finish = (\<lambda>st. st)\<rparr>"

definition cells :: "string list \<Rightarrow> Row" where
  "cells cs k = (if k < length cs then cs ! k else [])"

definition ex_block :: "(string \<times> Row list) list \<Rightarrow> Block" where
  "ex_block tabs =
     \<lparr>blk_name = ''ex'',
      blk_find = (\<lambda>prefix tags. map_of tabs prefix),
      blk_find_tag = (\<lambda>tag. None),
      blk_find_string = (\<lambda>tag. [])\<rparr>"

definition ex_aniso_row :: Row where
  "ex_aniso_row = cells [''7'', ''2'', ''?'', ''3'', ''.'', ''5'', ''6'']"

definition ex_atom_row :: Row where
  "ex_atom_row =
     cells [''7'', ''C'', ''CA'', ''.'', ''ALA'', ''A'', ''5'', ''?'',
            ''1'', ''2'', ''3'', ''?'', ''?'', ''?'', ''5'', ''A'', ''1'']"

definition ex_ncs_rows :: "Row list" where
  "ex_ncs_rows =
     [cells [''1'', ''0'', ''0'', ''0'', ''1'', ''0'', ''0'', ''0'', ''1'',
             ''0'', ''0'', ''0'', ''given''],
      cells [''0'', ''1'', ''0'', ''1'', ''0'', ''0'', ''0'', ''0'', ''1'',
             ''4'', ''5'', ''6'', ''?''],
      cells [''0'', ''1'', ''0'', ''1'', ''0'', ''0'', ''0'', ''0'', ''1'',
             ''4'', ''5'', ''6'', ''generate'']]"

definition ex_row_b :: Row where
  "ex_row_b =
     cells [''8'', ''C'', ''CB'', ''.'', ''ALA'', ''A'', ''5'', ''?'',
            ''4'', ''5'', ''6'', ''?'', ''?'', ''?'', ''6'', ''A'', ''1'']"

definition ex_row_u1 :: Row where
  "ex_row_u1 =
     cells [''1'', ''O'', ''O'', ''.'', ''HOH'', ''W'', ''?'', ''A'',
            ''1'', ''2'', ''3'', ''?'', ''?'', ''?'', ''9'', ''W'', ''1'']"

definition ex_row_u2 :: Row where
  "ex_row_u2 =
     cells [''2'', ''O'', ''O'', ''.'', ''HOH'', ''W'', ''?'', ''B'',
            ''1'', ''2'', ''3'', ''?'', ''?'', ''?'', ''9'', ''W'', ''1'']"

definition ex_residue :: "int \<Rightarrow> int \<Rightarrow> char \<Rightarrow> string \<Rightarrow> Residue" where
  "ex_residue seq auth ins nm =
     \<lparr>seq_id = seq, auth_seq_id = auth, ins_code = ins, res_name = nm, atoms = []\<rparr>"

text \<open>The number of atoms of each residue of each chain of each model of a build
  that returned.\<close>

definition residue_sizes :: "error + Structure \<Rightarrow> nat list list list" where
  "residue_sizes r =
     map (\<lambda>m. map (\<lambda>c. map (\<lambda>r. length (atoms r)) (residues c)) (chains m)) (models (projr r))"

definition ex_row_alt2 :: Row where
  "ex_row_alt2 =
     cells [''1'', ''C'', ''CA'', ''AB'', ''ALA'', ''A'', ''5'', ''?'',
            ''1'', ''2'', ''3'', ''?'', ''?'', ''?'', ''5'', ''A'', ''1'']"

definition ex_row_ins2 :: Row where
  "ex_row_ins2 =
     cells [''1'', ''C'', ''CA'', ''.'', ''ALA'', ''A'', ''5'', ''AB'',
            ''1'', ''2'', ''3'', ''?'', ''?'', ''?'', ''5'', ''A'', ''1'']"

definition altlocs :: "error + Structure \<Rightarrow> char list list list list" where
  "altlocs r =
     map (\<lambda>m. map (\<lambda>c. map (\<lambda>r. map altloc (atoms r)) (residues c)) (chains m))
       (models (projr r))"

definition ex_row_bad_x :: Row where
  "ex_row_bad_x =
     cells [''9'', ''C'', ''CB'', ''.'', ''ALA'', ''A'', ''5'', ''?'',
            ''1x'', ''5'', ''6'', ''?'', ''?'', ''?'', ''5'', ''A'', ''1'']"

definition ex_chain :: "string \<Rightarrow> Chain" where
  "ex_chain nm = \<lparr>chain_name = nm, auth_name = nm, entity = None, residues = []\<rparr>"

definition ex_models :: "Model list" where
  "ex_models =
     [\<lparr>model_name = ''1'', chains = [ex_chain ''A'', ex_chain ''B'', ex_chain ''W'']\<rparr>,
      \<lparr>model_name = ''2'', chains = [ex_chain ''A'']\<rparr>]"

definition ex_struct_asym :: TableView where
  "ex_struct_asym = Some [cells [''A'', ''1''], cells [''B'', ''1''], cells [''C'', ''2'']]"

text \<open>The entity reference of each chain of each model.\<close>

definition entity_refs :: "Model list \<Rightarrow> nat option list list" where
  "entity_refs ms = map (\<lambda>m. map entity (chains m)) ms"

text \<open>
  A formatter environment for running \<^verbatim>\<open>to_str_prec\<close>: digits are cut by rounding
  half up, and the general conversions are known for the one value used, 1e8, whose
  \<^verbatim>\<open>%g\<close> text is \<^verbatim>\<open>1e+08\<close>.
\<close>

definition ex_fmt :: fmt_env where
  "ex_fmt =
     \<lparr>round_dec = (\<lambda>x. nat (round x)),
      text_g = (\<lambda>d. if d = Finite 100000000 then ''1e+08'' else ''nan''),
      text_g9 = (\<lambda>d. if d = Finite 100000000 then ''100000000'' else ''nan''),
      text_g6 = (\<lambda>d. if d = Finite 100000000 then ''1e+08'' else ''nan''),
      text_f_nonfinite = (\<lambda>d. ''nan'')\<rparr>"

section \<open>The exception monad\<close>

lemma and_then_Inr [simp]: "and_then (Inr x) f = f x"
  by (simp add: and_then_def)

lemma and_then_Inl [simp]: "and_then (Inl e) f = Inl e"
  by (simp add: and_then_def)

lemma and_then_eq_Inr:
  "and_then m f = Inr y \<longleftrightarrow> (\<exists>x. m = Inr x \<and> f x = Inr y)"
  by (cases m) simp_all

lemmas ex_simps =
  ex_env_def ex_null_def ex_number_def ex_int_def ex_digit_def cells_def

section \<open>The anisotropic-U loader\<close>

lemma as_number_readable:
  "readable env s \<Longrightarrow>
   as_number env s = Inr (if is_null env s then 0 else projr (parse_number env s))"
  by (cases "parse_number env s") (auto simp: readable_def as_number_def)

lemma aniso_entry_readable:
  "list_all (\<lambda>k. readable env (ani k)) [1, 2, 3, 4, 5, 6] \<Longrightarrow>
   aniso_entry env ani = Inr (entry_of env ani)"
  by (simp add: aniso_entry_def entry_of_def as_number_readable)

lemma aniso_loop_readable:
  "\<forall>r\<in>set rows. list_all (\<lambda>k. readable env (r k)) [1, 2, 3, 4, 5, 6] \<Longrightarrow>
   aniso_loop env rows m = Inr (fold (\<lambda>r. AList.update (r 0) (entry_of env r)) rows m)"
  by (induction rows arbitrary: m) (simp_all add: aniso_entry_readable)

lemma map_of_fold_other:
  "k \<notin> (\<lambda>r. r 0) ` set rows \<Longrightarrow>
   map_of (fold (\<lambda>r. AList.update (r 0) (f r)) rows m) k = map_of m k"
  by (induction rows arbitrary: m) (auto simp: update_conv')

lemma map_of_fold_distinct:
  "distinct (map (\<lambda>r. r 0) rows) \<Longrightarrow> ani \<in> set rows \<Longrightarrow>
   map_of (fold (\<lambda>r. AList.update (r 0) (f r)) rows m) (ani 0) = Some (f ani)"
proof (induction rows arbitrary: m)
  case Nil
  then show ?case by simp
next
  case (Cons r rows)
  show ?case
  proof (cases "ani \<in> set rows")
    case True
    with Cons show ?thesis by simp
  next
    case False
    with Cons.prems have eq: "ani = r" by simp
    from Cons.prems have "r 0 \<notin> (\<lambda>r. r 0) ` set rows" by simp
    then show ?thesis
      by (simp add: eq map_of_fold_other update_conv')
  qed
qed

text \<open>
  C3. In the anisotropic-U loader every row of the table gets an entry under its id:
  each of its six components is read on its own, a component whose cell is a
  no-value marker is 0.0 and does not make the row fail or be skipped, and every
  other component is the narrowed value of its cell. (Ids are taken distinct, so
  that no later row replaces the entry; every cell that is not null is a number, so
  that the loader returns.)
\<close>

theorem aniso_null_component_is_zero:
  assumes zero: "to_float env 0 = 0"
    and readable: "\<forall>r\<in>set (rows_of (aniso_table block)).
                     list_all (\<lambda>k. readable env (r k)) [1, 2, 3, 4, 5, 6]"
    and ids: "distinct (map (\<lambda>r. r 0) (rows_of (aniso_table block)))"
    and row: "ani \<in> set (rows_of (aniso_table block))"
  shows "\<exists>m. get_anisotropic_u env block = Inr m \<and>
           map_of m (ani 0) =
             Some (map (\<lambda>k. if is_null env (ani k) then 0
                             else to_float env (projr (parse_number env (ani k))))
                     [1, 2, 3, 4, 5, 6])"
proof -
  let ?rows = "rows_of (aniso_table block)"
  let ?m = "fold (\<lambda>r. AList.update (r 0) (entry_of env r)) ?rows []"
  have run: "get_anisotropic_u env block = Inr ?m"
    using readable by (simp add: get_anisotropic_u_def aniso_loop_readable)
  have "map_of ?m (ani 0) = Some (entry_of env ani)"
    using ids row by (rule map_of_fold_distinct)
  moreover have "entry_of env ani =
      map (\<lambda>k. if is_null env (ani k) then 0
                else to_float env (projr (parse_number env (ani k)))) [1, 2, 3, 4, 5, 6]"
    by (simp add: entry_of_def zero)
  ultimately show ?thesis using run by simp
qed

theorem aniso_null_component_is_zero_witness:
  "\<exists>m. get_anisotropic_u (ex_env True)
          (ex_block [(''_atom_site_anisotrop.'', [ex_aniso_row])]) = Inr m \<and>
        map_of m ''7'' = Some [2, 0, 3, 0, 5, 6]"
proof -
  let ?b = "ex_block [(''_atom_site_anisotrop.'', [ex_aniso_row])]"
  have rows: "rows_of (aniso_table ?b) = [ex_aniso_row]"
    by (simp add: aniso_table_def ex_block_def rows_of_def)
  have h1: "to_float (ex_env True) 0 = 0"
    by (simp add: ex_env_def)
  have h2: "\<forall>r\<in>set (rows_of (aniso_table ?b)).
              list_all (\<lambda>k. readable (ex_env True) (r k)) [1, 2, 3, 4, 5, 6]"
    unfolding rows by (simp add: readable_def ex_aniso_row_def ex_simps)
  have h3: "distinct (map (\<lambda>r. r 0) (rows_of (aniso_table ?b)))"
    by (simp add: rows)
  have h4: "ex_aniso_row \<in> set (rows_of (aniso_table ?b))"
    by (simp add: rows)
  from aniso_null_component_is_zero [OF h1 h2 h3 h4]
  show ?thesis
    by (simp add: ex_aniso_row_def ex_simps)
qed

section \<open>The atom of a row\<close>

lemma set_aniso_keeps [simp]:
  "atom_name (set_aniso m row a) = atom_name a"
  "altloc (set_aniso m row a) = altloc a"
  "charge (set_aniso m row a) = charge a"
  "element (set_aniso m row a) = element a"
  "pos_x (set_aniso m row a) = pos_x a"
  "pos_y (set_aniso m row a) = pos_y a"
  "pos_z (set_aniso m row a) = pos_z a"
  "occ (set_aniso m row a) = occ a"
  "b_iso (set_aniso m row a) = b_iso a"
  by (simp_all add: set_aniso_def split: option.split)

lemma as_number_or_readable:
  "readable env s \<Longrightarrow>
   as_number_or env s d = Inr (if is_null env s then d else projr (parse_number env s))"
  by (cases "parse_number env s") (auto simp: readable_def as_number_or_def)

lemma not_isl_projr: "\<not> isl m \<Longrightarrow> m = Inr (projr m)"
  by (cases m) simp_all

text \<open>
  C4. For every atom row whose position cells read as numbers, whose charge cell is
  null or an integer and whose occupancy and B cells are null or numbers, the atom
  is built, with occupancy 1.0 for a null occupancy cell, isotropic displacement
  50.0 for a null B cell, charge 0 for a null charge cell, and otherwise the charge
  that \<^verbatim>\<open>as_int\<close> reads.
\<close>

theorem null_coercion:
  assumes pos: "\<not> isl (as_number env (row kX))" "\<not> isl (as_number env (row kY))"
               "\<not> isl (as_number env (row kZ))"
    and chg: "is_null env (row kCharge) \<or> \<not> isl (as_int env (row kCharge))"
    and oc: "readable env (row kOcc)"
    and bi: "readable env (row kBiso)"
  shows "\<exists>a. make_atom env aniso_map row = Inr a \<and>
           occ a = (if is_null env (row kOcc) then 1
                    else projr (parse_number env (row kOcc))) \<and>
           b_iso a = (if is_null env (row kBiso) then 50
                      else projr (parse_number env (row kBiso))) \<and>
           charge a = (if is_null env (row kCharge) then 0
                       else projr (as_int env (row kCharge)))"
proof -
  obtain ch where c: "(if is_null env (row kCharge) then Inr 0 else as_int env (row kCharge)) =
                      Inr ch"
    and ch: "ch = (if is_null env (row kCharge) then 0 else projr (as_int env (row kCharge)))"
    using chg by (cases "as_int env (row kCharge)") auto
  obtain x y z where xyz: "as_number env (row kX) = Inr x" "as_number env (row kY) = Inr y"
      "as_number env (row kZ) = Inr z"
    using pos by (metis not_isl_projr)
  show ?thesis
    unfolding make_atom_def Let_def
    by (simp add: c ch xyz as_number_or_readable [OF oc] as_number_or_readable [OF bi])
qed

lemma make_atom_ex_atom_row:
  "make_atom (ex_env True) [(''7'', [2, 0, 3, 0, 5, 6])] ex_atom_row =
   Inr \<lparr>atom_name = ''CA'', altloc = CHR 0x00, charge = 0, element = 1,
        pos_x = 1, pos_y = 2, pos_z = 3, occ = 1, b_iso = 50,
        u11 = Some 2, u22 = Some 0, u33 = Some 3,
        u12 = Some 0, u13 = Some 5, u23 = Some 6\<rparr>"
  by (simp add: make_atom_def set_aniso_def as_number_def as_number_or_def char0_def
      ex_atom_row_def ex_simps)

theorem null_coercion_witness:
  "\<exists>a. make_atom (ex_env True) [] ex_atom_row = Inr a \<and>
        occ a = 1 \<and> b_iso a = 50 \<and> charge a = 0"
proof -
  have h: "\<not> isl (as_number (ex_env True) (ex_atom_row kX))"
          "\<not> isl (as_number (ex_env True) (ex_atom_row kY))"
          "\<not> isl (as_number (ex_env True) (ex_atom_row kZ))"
          "is_null (ex_env True) (ex_atom_row kCharge) \<or>
             \<not> isl (as_int (ex_env True) (ex_atom_row kCharge))"
          "readable (ex_env True) (ex_atom_row kOcc)"
          "readable (ex_env True) (ex_atom_row kBiso)"
    by (simp_all add: as_number_def readable_def ex_atom_row_def ex_simps)
  have n: "is_null (ex_env True) (ex_atom_row kOcc)" "is_null (ex_env True) (ex_atom_row kBiso)"
          "is_null (ex_env True) (ex_atom_row kCharge)"
    by (simp_all add: ex_atom_row_def ex_simps)
  from null_coercion [OF h, of "[]"] show ?thesis
    by (simp only: n if_True)
qed

text \<open>
  C5. For every atom that is built: when the raw id cell of its row is a key of the
  anisotropic-U map, its six components are the six values of that entry, in the
  order U11, U22, U33, U12, U13, U23; when it is not (as when the map is empty), all
  six are the unset sentinel, which is not a zero displacement. An absent table
  gives the empty map.
\<close>

theorem aniso_presence:
  assumes "make_atom env aniso_map row = Inr a"
  shows "(case map_of aniso_map (row kId) of
            Some ani \<Rightarrow>
              [u11 a, u22 a, u33 a, u12 a, u13 a, u23 a] =
                map (\<lambda>k. Some (ani ! k)) [0, 1, 2, 3, 4, 5]
          | None \<Rightarrow>
              list_all (\<lambda>u. u = None \<and> u \<noteq> Some 0)
                [u11 a, u22 a, u33 a, u12 a, u13 a, u23 a]) \<and>
         (aniso_table block = None \<longrightarrow> get_anisotropic_u env block = Inr [])"
proof -
  from assms obtain a0 where a: "a = set_aniso aniso_map row a0"
    and u: "u11 a0 = None" "u22 a0 = None" "u33 a0 = None"
           "u12 a0 = None" "u13 a0 = None" "u23 a0 = None"
    by (auto simp: make_atom_def Let_def and_then_eq_Inr)
  have "aniso_map = [] \<Longrightarrow> map_of aniso_map (row kId) = None"
    by simp
  then have "case map_of aniso_map (row kId) of
            Some ani \<Rightarrow>
              [u11 a, u22 a, u33 a, u12 a, u13 a, u23 a] =
                map (\<lambda>k. Some (ani ! k)) [0, 1, 2, 3, 4, 5]
          | None \<Rightarrow>
              list_all (\<lambda>u. u = None \<and> u \<noteq> Some 0)
                [u11 a, u22 a, u33 a, u12 a, u13 a, u23 a]"
    by (cases "aniso_map = []") (auto simp: a u set_aniso_def split: option.split)
  moreover have "aniso_table block = None \<longrightarrow> get_anisotropic_u env block = Inr []"
    by (simp add: get_anisotropic_u_def rows_of_def)
  ultimately show ?thesis by blast
qed

theorem aniso_presence_witness:
  "(\<exists>a. make_atom (ex_env True) [(''7'', [2, 0, 3, 0, 5, 6])] ex_atom_row = Inr a \<and>
        [u11 a, u22 a, u33 a, u12 a, u13 a, u23 a] =
          [Some 2, Some 0, Some 3, Some 0, Some 5, Some 6]) \<and>
   (\<exists>a. make_atom (ex_env True) [(''8'', [2, 0, 3, 0, 5, 6])] ex_atom_row = Inr a \<and>
        [u11 a, u22 a, u33 a, u12 a, u13 a, u23 a] =
          [None, None, None, None, None, None]) \<and>
   get_anisotropic_u (ex_env True) (ex_block []) = Inr []"
proof -
  obtain a where a: "make_atom (ex_env True) [(''7'', [2, 0, 3, 0, 5, 6])] ex_atom_row = Inr a"
    using make_atom_ex_atom_row by blast
  have b0: "\<not> isl (make_atom (ex_env True) [(''8'', [2, 0, 3, 0, 5, 6])] ex_atom_row)"
    by (simp add: make_atom_def set_aniso_def as_number_def as_number_or_def char0_def
      ex_atom_row_def ex_simps)
  then obtain b where b: "make_atom (ex_env True) [(''8'', [2, 0, 3, 0, 5, 6])] ex_atom_row = Inr b"
    using not_isl_projr by blast
  have id7: "ex_atom_row kId = ''7''"
    by (simp add: ex_atom_row_def cells_def)
  have t: "aniso_table (ex_block []) = None"
    by (simp add: aniso_table_def ex_block_def)
  from aniso_presence [OF a, where block = "ex_block []"]
       aniso_presence [OF b, where block = "ex_block []"] a b t
  show ?thesis
    by (simp add: id7)
qed

section \<open>The NCS operators\<close>

lemma as_nums_readable:
  "list_all (\<lambda>k. readable env (row k)) ks \<Longrightarrow>
   as_nums env row ks =
     Inr (map (\<lambda>k. if is_null env (row k) then 0 else projr (parse_number env (row k))) ks)"
  by (induction ks) (simp_all add: as_number_readable)

lemma ncs_oper_of_readable:
  assumes "list_all (\<lambda>k. readable env (op k)) [0, 1, 2, 3, 4, 5, 6, 7, 8, 9, 10, 11]"
  shows "\<exists>x. ncs_oper_of env op = Inr x \<and> given x = (as_string env (op 12) = ''given'')"
proof -
  from assms have "list_all (\<lambda>k. readable env (op k)) [0, 1, 2, 3, 4, 5, 6, 7, 8]"
    and "list_all (\<lambda>k. readable env (op k)) [9, 10, 11]"
    by simp_all
  then show ?thesis
    unfolding ncs_oper_of_def by (simp only: as_nums_readable and_then_Inr) simp
qed

lemma ncs_loop_given:
  "\<forall>op\<in>set rows. list_all (\<lambda>k. readable env (op k)) [0, 1, 2, 3, 4, 5, 6, 7, 8, 9, 10, 11] \<Longrightarrow>
   \<exists>ops. ncs_loop env rows acc = Inr ops \<and>
         map given ops = map given acc @ map (\<lambda>op. as_string env (op 12) = ''given'') rows"
proof (induction rows arbitrary: acc)
  case Nil
  then show ?case by simp
next
  case (Cons op rows)
  then obtain x where x: "ncs_oper_of env op = Inr x"
      "given x = (as_string env (op 12) = ''given'')"
    using ncs_oper_of_readable [of env op] by auto
  from Cons.prems have "\<forall>op\<in>set rows.
      list_all (\<lambda>k. readable env (op k)) [0, 1, 2, 3, 4, 5, 6, 7, 8, 9, 10, 11]"
    by simp
  from Cons.IH [OF this, of "acc @ [x]"] show ?case
    by (simp add: x)
qed

text \<open>
  C10. For every row of the NCS-operator table (its twelve matrix and vector cells
  being readable, so that the loop returns), one operator is appended, in row order,
  and its given-flag is true exactly when the code cell, read as a string, is
  \<^verbatim>\<open>given\<close>; any other code leaves the flag false and the operator in the list.
\<close>

theorem ncs_given_flag:
  assumes "\<forall>op\<in>set (rows_of (ncs_table block)).
             list_all (\<lambda>k. readable env (op k)) [0, 1, 2, 3, 4, 5, 6, 7, 8, 9, 10, 11]"
  shows "\<exists>ops. read_ncs env block = Inr ops \<and>
           map given ops =
             map (\<lambda>op. as_string env (op 12) = ''given'') (rows_of (ncs_table block))"
  using ncs_loop_given [OF assms, of "[]"] by (simp add: read_ncs_def)

theorem ncs_given_flag_witness:
  "\<exists>ops. read_ncs (ex_env True) (ex_block [(''_struct_ncs_oper.'', ex_ncs_rows)]) = Inr ops \<and>
         map given ops = [True, False, False]"
proof -
  let ?b = "ex_block [(''_struct_ncs_oper.'', ex_ncs_rows)]"
  have rows: "rows_of (ncs_table ?b) = ex_ncs_rows"
    by (simp add: ncs_table_def ex_block_def rows_of_def)
  have h: "\<forall>op\<in>set (rows_of (ncs_table ?b)).
      list_all (\<lambda>k. readable (ex_env True) (op k)) [0, 1, 2, 3, 4, 5, 6, 7, 8, 9, 10, 11]"
    unfolding rows by (simp add: readable_def ex_ncs_rows_def ex_simps)
  from ncs_given_flag [OF h] show ?thesis
    unfolding rows by (simp add: ex_ncs_rows_def ex_simps)
qed

section \<open>The residue step\<close>

lemmas build_simps =
  structure_from_cif_block_def read_cell_def cell_table_def ok_def read_ncs_def ncs_table_def
  get_anisotropic_u_def aniso_table_def atom_table_def add_atom_row_def select_model_def
  find_or_add_model_def find_or_add_def select_chain_def find_or_add_chain_def
  select_residue_def starts_new_residue_def c_assert_def find_or_add_residue_def
  same_residue_def make_atom_def set_aniso_def upd_def read_entities_def
  link_chain_def find_row_def read_info_def add_info_def as_number_def as_number_or_def
  char0_def rows_of_def ex_block_def Let_def

lemma first_index_Some:
  "first_index P xs = Some i \<Longrightarrow> i < length xs \<and> P (xs ! i)"
  by (induction xs arbitrary: i) (auto split: if_splits)

lemma find_or_add_spec:
  assumes "P fresh" and "find_or_add P fresh xs = (xs', i)"
  shows "i < length xs' \<and> P (xs' ! i) \<and> take (length xs) xs' = xs"
  using assms
  by (auto simp: find_or_add_def nth_append dest: first_index_Some split: option.splits)

text \<open>
  C1 (amended). With the sequence and author numbers of the row read, the residue
  step takes the find-or-add branch exactly when the sequence number differs from
  the current residue's, or the raw name cell differs from its name, or the sequence
  number is the unknown sentinel and the author number or the insertion code
  differs; with no current residue it always does. A row with the current residue's
  known sequence number and name but another author number keeps the residue
  pointer and the residue list when assertions are compiled out, and fails the
  assertion of line 131 when they are not. A row with unknown sequence number whose
  insertion code differs from the current residue's goes to a residue other than
  the current one.
\<close>

theorem residue_boundary:
  assumes seq: "as_int_or env (row kSeqId) (UnknownId env) = Inr seq"
    and auth: "as_int_or env (row kAuthSeqId) (UnknownId env) = Inr auth"
    and ri: "ri < length rs"
  shows
    "select_residue env rs (Some ri) row =
       (if seq \<noteq> seq_id (rs ! ri) \<or> row kCompId \<noteq> res_name (rs ! ri) \<or>
           (seq = UnknownId env \<and>
            (auth_seq_id (rs ! ri) \<noteq> auth \<or>
             ins_code (rs ! ri) \<noteq> char0 (as_string env (row kInsCode))))
        then and_then (c_assert env 127 (length (row kInsCode) = 1)) (\<lambda>_.
               Inr (find_or_add_residue rs seq auth (char0 (as_string env (row kInsCode)))
                      (as_string env (row kCompId))))
        else and_then
               (c_assert env 131
                  (auth_seq_id (rs ! ri) = auth \<and>
                   ins_code (rs ! ri) = char0 (as_string env (row kInsCode))))
               (\<lambda>_. Inr (rs, ri))) \<and>
     select_residue env rs None row =
       and_then (c_assert env 127 (length (row kInsCode) = 1)) (\<lambda>_.
         Inr (find_or_add_residue rs seq auth (char0 (as_string env (row kInsCode)))
                (as_string env (row kCompId)))) \<and>
     (seq = seq_id (rs ! ri) \<and> seq \<noteq> UnknownId env \<and> row kCompId = res_name (rs ! ri) \<and>
      auth \<noteq> auth_seq_id (rs ! ri) \<longrightarrow>
        select_residue env rs (Some ri) row =
          (if ndebug env then Inr (rs, ri) else Inl (AssertionFailed 131))) \<and>
     (seq = UnknownId env \<and> ins_code (rs ! ri) \<noteq> char0 (as_string env (row kInsCode)) \<and>
      (ndebug env \<or> length (row kInsCode) = 1) \<longrightarrow>
        (\<exists>rs' ri'. select_residue env rs (Some ri) row = Inr (rs', ri') \<and>
           ri' \<noteq> ri \<and> ri' < length rs' \<and> take (length rs) rs' = rs \<and>
           same_residue seq auth (char0 (as_string env (row kInsCode)))
             (as_string env (row kCompId)) (rs' ! ri')))"
proof -
  let ?ins = "char0 (as_string env (row kInsCode))"
  let ?nm = "as_string env (row kCompId)"
  have unfold: "select_residue env rs resi row =
      (if starts_new_residue env (map_option (\<lambda>ri. rs ! ri) resi) row seq auth ?ins
       then and_then (c_assert env 127 (length (row kInsCode) = 1)) (\<lambda>_.
              Inr (find_or_add_residue rs seq auth ?ins ?nm))
       else and_then
              (c_assert env 131
                 (auth_seq_id (rs ! the resi) = auth \<and> ins_code (rs ! the resi) = ?ins))
              (\<lambda>_. Inr (rs, the resi)))" for resi
    by (simp add: select_residue_def seq auth Let_def)
  have a: "select_residue env rs (Some ri) row =
       (if seq \<noteq> seq_id (rs ! ri) \<or> row kCompId \<noteq> res_name (rs ! ri) \<or>
           (seq = UnknownId env \<and> (auth_seq_id (rs ! ri) \<noteq> auth \<or> ins_code (rs ! ri) \<noteq> ?ins))
        then and_then (c_assert env 127 (length (row kInsCode) = 1)) (\<lambda>_.
               Inr (find_or_add_residue rs seq auth ?ins ?nm))
        else and_then
               (c_assert env 131 (auth_seq_id (rs ! ri) = auth \<and> ins_code (rs ! ri) = ?ins))
               (\<lambda>_. Inr (rs, ri)))"
    unfolding unfold starts_new_residue_def by (simp only: option.map option.case option.sel)
  have b: "select_residue env rs None row =
       and_then (c_assert env 127 (length (row kInsCode) = 1)) (\<lambda>_.
         Inr (find_or_add_residue rs seq auth ?ins ?nm))"
    by (simp add: unfold starts_new_residue_def)
  have c: "select_residue env rs (Some ri) row =
          (if ndebug env then Inr (rs, ri) else Inl (AssertionFailed 131))"
    if "seq = seq_id (rs ! ri) \<and> seq \<noteq> UnknownId env \<and> row kCompId = res_name (rs ! ri) \<and>
        auth \<noteq> auth_seq_id (rs ! ri)"
    using that by (auto simp: a c_assert_def)
  have d: "\<exists>rs' ri'. select_residue env rs (Some ri) row = Inr (rs', ri') \<and>
           ri' \<noteq> ri \<and> ri' < length rs' \<and> take (length rs) rs' = rs \<and>
           same_residue seq auth ?ins ?nm (rs' ! ri')"
    if h: "seq = UnknownId env \<and> ins_code (rs ! ri) \<noteq> ?ins \<and>
        (ndebug env \<or> length (row kInsCode) = 1)"
  proof -
    obtain rs' ri' where f: "find_or_add_residue rs seq auth ?ins ?nm = (rs', ri')"
      by (cases "find_or_add_residue rs seq auth ?ins ?nm")
    have fresh: "same_residue seq auth ?ins ?nm
        \<lparr>seq_id = seq, auth_seq_id = auth, ins_code = ?ins, res_name = ?nm, atoms = []\<rparr>"
      by (simp add: same_residue_def)
    from find_or_add_spec [OF fresh f [unfolded find_or_add_residue_def]]
    have s: "ri' < length rs'" "same_residue seq auth ?ins ?nm (rs' ! ri')"
      "take (length rs) rs' = rs"
      by simp_all
    have "rs' ! ri = rs ! ri"
      using s(3) ri by (metis nth_take)
    with s(2) h have "ri' \<noteq> ri"
      by (auto simp: same_residue_def)
    moreover have "select_residue env rs (Some ri) row = Inr (rs', ri')"
      using h f by (auto simp: a c_assert_def)
    ultimately show ?thesis using s by blast
  qed
  from a b c d show ?thesis by blast
qed

theorem residue_boundary_witness:
  "select_residue (ex_env True) [ex_residue 5 5 (CHR 0x00) ''ALA''] (Some 0) ex_row_b =
     Inr ([ex_residue 5 5 (CHR 0x00) ''ALA''], 0) \<and>
   (\<exists>rs' ri'. select_residue (ex_env False) [ex_residue (- 1000) 9 (CHR ''A'') ''HOH'']
                 (Some 0) ex_row_u2 = Inr (rs', ri') \<and> ri' \<noteq> 0) \<and>
   residue_sizes (structure_from_cif_block (ex_env True)
     (ex_block [(''_atom_site.'', [ex_atom_row, ex_row_b])])) = [[[2]]] \<and>
   residue_sizes (structure_from_cif_block (ex_env False)
     (ex_block [(''_atom_site.'', [ex_row_u1, ex_row_u2])])) = [[[1, 1]]]"
proof -
  have m1: "as_int_or (ex_env True) (ex_row_b kSeqId) (UnknownId (ex_env True)) = Inr 5"
    and m2: "as_int_or (ex_env True) (ex_row_b kAuthSeqId) (UnknownId (ex_env True)) = Inr 6"
    and m3: "0 < length [ex_residue 5 5 (CHR 0x00) ''ALA'']"
    by (simp_all add: ex_row_b_def ex_simps)
  have "select_residue (ex_env True) [ex_residue 5 5 (CHR 0x00) ''ALA''] (Some 0) ex_row_b =
     Inr ([ex_residue 5 5 (CHR 0x00) ''ALA''], 0)"
  proof -
    have "select_residue (ex_env True) [ex_residue 5 5 (CHR 0x00) ''ALA''] (Some 0) ex_row_b =
       (if ndebug (ex_env True) then Inr ([ex_residue 5 5 (CHR 0x00) ''ALA''], 0)
        else Inl (AssertionFailed 131))"
      by (rule residue_boundary [OF m1 m2 m3, THEN conjunct2, THEN conjunct2, THEN conjunct1,
            THEN mp])
         (simp add: ex_residue_def ex_row_b_def ex_simps)
    then show ?thesis by (simp add: ex_env_def)
  qed
  moreover
  have s1: "as_int_or (ex_env False) (ex_row_u2 kSeqId) (UnknownId (ex_env False)) = Inr (- 1000)"
    and s2: "as_int_or (ex_env False) (ex_row_u2 kAuthSeqId) (UnknownId (ex_env False)) = Inr 9"
    and s3: "0 < length [ex_residue (- 1000) 9 (CHR ''A'') ''HOH'']"
    by (simp_all add: ex_row_u2_def ex_simps)
  have "\<exists>rs' ri'. select_residue (ex_env False) [ex_residue (- 1000) 9 (CHR ''A'') ''HOH'']
                 (Some 0) ex_row_u2 = Inr (rs', ri') \<and> ri' \<noteq> 0"
  proof -
    have "\<exists>rs' ri'.
        select_residue (ex_env False) [ex_residue (- 1000) 9 (CHR ''A'') ''HOH''] (Some 0)
          ex_row_u2 = Inr (rs', ri') \<and>
        ri' \<noteq> 0 \<and> ri' < length rs' \<and>
        take (length [ex_residue (- 1000) 9 (CHR ''A'') ''HOH'']) rs' =
          [ex_residue (- 1000) 9 (CHR ''A'') ''HOH''] \<and>
        same_residue (- 1000) 9 (char0 (as_string (ex_env False) (ex_row_u2 kInsCode)))
          (as_string (ex_env False) (ex_row_u2 kCompId)) (rs' ! ri')"
      by (rule residue_boundary [OF s1 s2 s3, THEN conjunct2, THEN conjunct2, THEN conjunct2,
            THEN mp])
         (simp add: ex_residue_def ex_row_u2_def char0_def ex_simps)
    then show ?thesis by blast
  qed
  moreover
  have "residue_sizes (structure_from_cif_block (ex_env True)
     (ex_block [(''_atom_site.'', [ex_atom_row, ex_row_b])])) = [[[2]]]"
    by (simp add: residue_sizes_def build_simps ex_atom_row_def ex_row_b_def ex_simps)
  moreover
  have "residue_sizes (structure_from_cif_block (ex_env False)
     (ex_block [(''_atom_site.'', [ex_row_u1, ex_row_u2])])) = [[[1, 1]]]"
    by (simp add: residue_sizes_def build_simps ex_row_u1_def ex_row_u2_def ex_simps)
  ultimately show ?thesis by blast
qed

text \<open>
  With assertions enabled, two rows with the same known sequence number and name
  and different author numbers do not build a structure: the second row fails the
  assertion of line 131.
\<close>

theorem residue_boundary_counterexample:
  "structure_from_cif_block (ex_env False)
     (ex_block [(''_atom_site.'', [ex_atom_row, ex_row_b])]) = Inl (AssertionFailed 131)"
  by (simp add: build_simps ex_atom_row_def ex_row_b_def ex_simps)

lemma make_atom_altloc:
  "make_atom env am (row(kAltId := s)) =
     (case make_atom env am row of
        Inl e \<Rightarrow> Inl e
      | Inr a \<Rightarrow> Inr (a\<lparr>altloc := char0 (as_string env s)\<rparr>))"
proof -
  have eq: "set_aniso am (row(kAltId := s)) a = set_aniso am row a" for a
    by (simp add: set_aniso_def)
  have al: "(set_aniso am row a)\<lparr>altloc := c\<rparr> = set_aniso am row (a\<lparr>altloc := c\<rparr>)" for a c
    by (simp add: set_aniso_def split: option.split)
  show ?thesis
    unfolding make_atom_def Let_def
    by (simp add: eq al and_then_def split: sum.split)
qed

text \<open>
  C7 (amended). Of the two one-character fields only the insertion code is checked,
  and only on a row that starts a residue: there, with assertions enabled, a raw
  cell that is not exactly one character stops the build with the assertion of
  line 127 (no error value is returned to recover from), and with assertions
  compiled out nothing is checked. A one-character cell never fails that assertion,
  and a row that continues the current residue is not length-checked. The alt-loc
  cell is not checked at all: replacing it changes only the alt-loc character of
  the atom, which is the first character of the cell read as a string (NUL when
  that is empty), and never whether the atom is built.
\<close>

theorem ins_code_length_assertion:
  assumes seq: "as_int_or env (row kSeqId) (UnknownId env) = Inr seq"
    and auth: "as_int_or env (row kAuthSeqId) (UnknownId env) = Inr auth"
  shows
    "(starts_new_residue env (map_option (\<lambda>i. rs ! i) resi) row seq auth
        (char0 (as_string env (row kInsCode))) \<longrightarrow>
      select_residue env rs resi row =
        (if ndebug env \<or> length (row kInsCode) = 1
         then Inr (find_or_add_residue rs seq auth (char0 (as_string env (row kInsCode)))
                     (as_string env (row kCompId)))
         else Inl (AssertionFailed 127))) \<and>
     (\<not> starts_new_residue env (map_option (\<lambda>i. rs ! i) resi) row seq auth
          (char0 (as_string env (row kInsCode))) \<longrightarrow>
      select_residue env rs resi row \<noteq> Inl (AssertionFailed 127)) \<and>
     (length (row kInsCode) = 1 \<longrightarrow>
      select_residue env rs resi row \<noteq> Inl (AssertionFailed 127)) \<and>
     (\<forall>s. make_atom env aniso_map (row(kAltId := s)) =
        (case make_atom env aniso_map row of
           Inl e \<Rightarrow> Inl e
         | Inr a \<Rightarrow> Inr (a\<lparr>altloc := char0 (as_string env s)\<rparr>)))"
  by (auto simp: select_residue_def seq auth Let_def c_assert_def make_atom_altloc)

theorem ins_code_length_assertion_witness:
  "select_residue (ex_env False) [] None ex_row_ins2 = Inl (AssertionFailed 127) \<and>
   select_residue (ex_env True) [] None ex_row_ins2 =
     Inr ([ex_residue 5 5 (CHR ''A'') ''ALA''], 0) \<and>
   select_residue (ex_env False) [] None ex_atom_row =
     Inr ([ex_residue 5 5 (CHR 0x00) ''ALA''], 0) \<and>
   (\<exists>a. make_atom (ex_env False) [] (ex_atom_row(kAltId := ''AB'')) = Inr a \<and>
         altloc a = CHR ''A'')"
proof -
  have i1: "as_int_or (ex_env nd) (ex_row_ins2 kSeqId) (UnknownId (ex_env nd)) = Inr 5"
    and i2: "as_int_or (ex_env nd) (ex_row_ins2 kAuthSeqId) (UnknownId (ex_env nd)) = Inr 5"
    and a1: "as_int_or (ex_env nd) (ex_atom_row kSeqId) (UnknownId (ex_env nd)) = Inr 5"
    and a2: "as_int_or (ex_env nd) (ex_atom_row kAuthSeqId) (UnknownId (ex_env nd)) = Inr 5"
    for nd
    by (simp_all add: ex_row_ins2_def ex_atom_row_def ex_simps)
  have new: "starts_new_residue env (map_option (\<lambda>i. [] ! i) None) row seq auth ins"
    for env row seq auth ins
    by (simp add: starts_new_residue_def)
  have "select_residue (ex_env False) [] None ex_row_ins2 =
      (if ndebug (ex_env False) \<or> length (ex_row_ins2 kInsCode) = 1
       then Inr (find_or_add_residue [] 5 5
                   (char0 (as_string (ex_env False) (ex_row_ins2 kInsCode)))
                   (as_string (ex_env False) (ex_row_ins2 kCompId)))
       else Inl (AssertionFailed 127))"
    by (rule ins_code_length_assertion [OF i1 i2, THEN conjunct1, THEN mp]) (rule new)
  then have w1: "select_residue (ex_env False) [] None ex_row_ins2 = Inl (AssertionFailed 127)"
    by (simp add: ex_row_ins2_def ex_simps)
  have "select_residue (ex_env True) [] None ex_row_ins2 =
      (if ndebug (ex_env True) \<or> length (ex_row_ins2 kInsCode) = 1
       then Inr (find_or_add_residue [] 5 5
                   (char0 (as_string (ex_env True) (ex_row_ins2 kInsCode)))
                   (as_string (ex_env True) (ex_row_ins2 kCompId)))
       else Inl (AssertionFailed 127))"
    by (rule ins_code_length_assertion [OF i1 i2, THEN conjunct1, THEN mp]) (rule new)
  then have w2: "select_residue (ex_env True) [] None ex_row_ins2 =
     Inr ([ex_residue 5 5 (CHR ''A'') ''ALA''], 0)"
    by (simp add: ex_row_ins2_def ex_residue_def find_or_add_residue_def find_or_add_def
        char0_def ex_simps)
  have "select_residue (ex_env False) [] None ex_atom_row =
      (if ndebug (ex_env False) \<or> length (ex_atom_row kInsCode) = 1
       then Inr (find_or_add_residue [] 5 5
                   (char0 (as_string (ex_env False) (ex_atom_row kInsCode)))
                   (as_string (ex_env False) (ex_atom_row kCompId)))
       else Inl (AssertionFailed 127))"
    by (rule ins_code_length_assertion [OF a1 a2, THEN conjunct1, THEN mp]) (rule new)
  then have w3: "select_residue (ex_env False) [] None ex_atom_row =
     Inr ([ex_residue 5 5 (CHR 0x00) ''ALA''], 0)"
    by (simp add: ex_atom_row_def ex_residue_def find_or_add_residue_def find_or_add_def
        char0_def ex_simps)
  have m: "\<not> isl (make_atom (ex_env False) [] ex_atom_row)"
    by (simp add: make_atom_def set_aniso_def as_number_def as_number_or_def char0_def
      ex_atom_row_def ex_simps)
  have "make_atom (ex_env False) [] (ex_atom_row(kAltId := ''AB'')) =
        (case make_atom (ex_env False) [] ex_atom_row of
           Inl e \<Rightarrow> Inl e
         | Inr a \<Rightarrow> Inr (a\<lparr>altloc := char0 (as_string (ex_env False) ''AB'')\<rparr>))"
    using ins_code_length_assertion [OF a1 a2, where aniso_map = "[]"] by blast
  with m have w4: "\<exists>a. make_atom (ex_env False) [] (ex_atom_row(kAltId := ''AB'')) = Inr a \<and>
         altloc a = CHR ''A''"
    by (cases "make_atom (ex_env False) [] ex_atom_row") (simp_all add: char0_def ex_simps)
  from w1 w2 w3 w4 show ?thesis by blast
qed

text \<open>
  With assertions enabled, a row whose alt-loc cell has two characters builds a
  structure; the atom's alt-loc is the first of them.
\<close>

theorem ins_code_length_assertion_counterexample:
  "\<not> isl (structure_from_cif_block (ex_env False)
            (ex_block [(''_atom_site.'', [ex_row_alt2])])) \<and>
   altlocs (structure_from_cif_block (ex_env False)
            (ex_block [(''_atom_site.'', [ex_row_alt2])])) = [[[[CHR ''A'']]]]"
  by (simp add: altlocs_def build_simps ex_row_alt2_def ex_simps)

section \<open>Errors leave the build\<close>

lemma isl_and_then:
  "isl (and_then m f) = (case m of Inl e \<Rightarrow> True | Inr x \<Rightarrow> isl (f x))"
  by (cases m) simp_all

lemma isl_and_then_first: "isl m \<Longrightarrow> isl (and_then m f)"
  by (cases m) simp_all

lemma isl_and_then_next: "(\<And>x. isl (f x)) \<Longrightarrow> isl (and_then m f)"
  by (cases m) simp_all

lemma as_nums_fails:
  "k \<in> set ks \<Longrightarrow> isl (as_number env (row k)) \<Longrightarrow> isl (as_nums env row ks)"
  by (induction ks) (auto simp: isl_and_then split: sum.splits)

lemma ncs_loop_fails:
  "op \<in> set rows \<Longrightarrow> isl (ncs_oper_of env op) \<Longrightarrow> isl (ncs_loop env rows acc)"
  by (induction rows arbitrary: acc) (auto simp: isl_and_then split: sum.splits)

lemma aniso_loop_fails:
  "ani \<in> set rows \<Longrightarrow> isl (aniso_entry env ani) \<Longrightarrow> isl (aniso_loop env rows m)"
  by (induction rows arbitrary: m) (auto simp: isl_and_then split: sum.splits)

lemma add_atom_row_fails:
  "isl (make_atom env am row) \<Longrightarrow> isl (add_atom_row env am s row)"
  by (auto simp: add_atom_row_def Let_def isl_and_then split: prod.splits sum.splits)

lemma atom_loop_fails:
  "row \<in> set rows \<Longrightarrow> isl (make_atom env am row) \<Longrightarrow> isl (atom_loop env am s rows)"
proof (induction rows arbitrary: s)
  case Nil
  then show ?case by simp
next
  case (Cons r rows)
  show ?case
  proof (cases "add_atom_row env am s r")
    case (Inl e)
    then show ?thesis by simp
  next
    case (Inr s')
    with add_atom_row_fails [of env am r s] have "\<not> isl (make_atom env am r)"
      by auto
    with Cons.prems have "row \<in> set rows" by auto
    from Cons.IH [OF this Cons.prems(2)] Inr show ?thesis by simp
  qed
qed

lemma make_atom_fails:
  assumes "isl (as_number env (row kX)) \<or> isl (as_number env (row kY)) \<or>
           isl (as_number env (row kZ))"
  shows "isl (make_atom env am row)"
  using assms unfolding make_atom_def Let_def
  by (auto simp: isl_and_then split: sum.splits)

lemma aniso_entry_fails:
  assumes "isl (as_number env (ani 1)) \<or> isl (as_number env (ani 2)) \<or>
        isl (as_number env (ani 3)) \<or> isl (as_number env (ani 4)) \<or>
        isl (as_number env (ani 5)) \<or> isl (as_number env (ani 6))"
  shows "isl (aniso_entry env ani)"
  using assms unfolding aniso_entry_def
  by (auto simp: isl_and_then split: sum.splits)

lemma ncs_oper_of_fails:
  assumes "k \<in> set [0, 1, 2, 3, 4, 5, 6, 7, 8, 9, 10, 11]" and "isl (as_number env (op k))"
  shows "isl (ncs_oper_of env op)"
proof -
  from assms(1) have "k \<in> set [0, 1, 2, 3, 4, 5, 6, 7, 8] \<or> k \<in> set [9, 10, 11]"
    by auto
  then have "isl (as_nums env op [0, 1, 2, 3, 4, 5, 6, 7, 8]) \<or>
             isl (as_nums env op [9, 10, 11])"
    using as_nums_fails [of k _ env op, OF _ assms(2)] by blast
  then show ?thesis
    unfolding ncs_oper_of_def
    by (auto simp: isl_and_then split: sum.splits)
qed

text \<open>
  C2. If a required numeric field fails to parse (in particular the x, y or z cell
  of any atom row, and likewise a cell of the unit-cell row, of an NCS row or of an
  anisotropic row), \<^verbatim>\<open>structure_from_cif_block\<close> ends in an error: the error
  leaves the loop and the function, and the result holds no structure, partial or
  otherwise.
\<close>

theorem malformed_number_aborts:
  assumes "required_number_fails env block"
  shows "isl (structure_from_cif_block env block)"
proof -
  have atom: "isl (atom_loop env am s (rows_of (atom_table block)))"
    if "list_ex (\<lambda>row. list_ex (\<lambda>k. isl (as_number env (row k))) [kX, kY, kZ])
          (rows_of (atom_table block))" for am s
  proof -
    from that obtain row where row: "row \<in> set (rows_of (atom_table block))"
      and "list_ex (\<lambda>k. isl (as_number env (row k))) [kX, kY, kZ]"
      unfolding list_ex_iff [of _ "rows_of (atom_table block)"] by blast
    then have "isl (make_atom env am row)"
      by (intro make_atom_fails) simp
    with row show ?thesis by (rule atom_loop_fails)
  qed
  have ncs: "isl (read_ncs env block)"
    if "list_ex (\<lambda>op. list_ex (\<lambda>k. isl (as_number env (op k)))
                 [0, 1, 2, 3, 4, 5, 6, 7, 8, 9, 10, 11])
          (rows_of (ncs_table block))"
  proof -
    from that obtain op k where op: "op \<in> set (rows_of (ncs_table block))"
      and "k \<in> set [0, 1, 2, 3, 4, 5, 6, 7, 8, 9, 10, 11]" "isl (as_number env (op k))"
      unfolding list_ex_iff by blast
    then have "isl (ncs_oper_of env op)"
      by (intro ncs_oper_of_fails)
    with op show ?thesis
      unfolding read_ncs_def by (rule ncs_loop_fails)
  qed
  have aniso: "isl (get_anisotropic_u env block)"
    if "list_ex (\<lambda>ani. list_ex (\<lambda>k. isl (as_number env (ani k))) [1, 2, 3, 4, 5, 6])
          (rows_of (aniso_table block))"
  proof -
    from that obtain ani where ani: "ani \<in> set (rows_of (aniso_table block))"
      and "list_ex (\<lambda>k. isl (as_number env (ani k))) [1, 2, 3, 4, 5, 6]"
      unfolding list_ex_iff [of _ "rows_of (aniso_table block)"] by blast
    then have "isl (aniso_entry env ani)"
      by (intro aniso_entry_fails) simp
    with ani show ?thesis
      unfolding get_anisotropic_u_def by (rule aniso_loop_fails)
  qed
  have cell: "isl (read_cell env block)"
    if "ok (cell_table block) \<and>
       (case one env (rows_of (cell_table block)) of
          Inl e \<Rightarrow> False
        | Inr c \<Rightarrow> list_ex (\<lambda>k. isl (as_number env (c k))) [0, 1, 2, 3, 4, 5])"
  proof -
    from that obtain c k where c: "ok (cell_table block)"
      "one env (rows_of (cell_table block)) = Inr c"
      and "k \<in> set [0, 1, 2, 3, 4, 5]" "isl (as_number env (c k))"
      unfolding list_ex_iff by (cases "one env (rows_of (cell_table block))") auto
    then have "isl (as_nums env c [0, 1, 2, 3, 4, 5])"
      by (intro as_nums_fails)
    then obtain e where "as_nums env c [0, 1, 2, 3, 4, 5] = Inl e"
      by (cases "as_nums env c [0, 1, 2, 3, 4, 5]") simp_all
    with c show ?thesis
      unfolding read_cell_def by (simp del: as_nums.simps)
  qed
  from assms atom ncs aniso cell
  have "isl (read_cell env block) \<or> isl (read_ncs env block) \<or>
        isl (get_anisotropic_u env block) \<or>
        (\<forall>am. isl (atom_loop env am
           \<lparr>bs_models = [], cur_model = None, cur_chain = None, cur_resi = None\<rparr>
           (rows_of (atom_table block))))"
    unfolding required_number_fails_def by blast
  then show ?thesis
    unfolding structure_from_cif_block_def
  proof (elim disjE)
    assume "isl (read_cell env block)"
    then show "isl (and_then (read_cell env block) f)" for f
      by (rule isl_and_then_first)
  next
    assume "isl (read_ncs env block)"
    then show "isl (and_then (read_cell env block) (\<lambda>c. and_then (read_ncs env block) (f c)))"
      for f
      by (intro isl_and_then_next isl_and_then_first)
  next
    assume "isl (get_anisotropic_u env block)"
    then show "isl (and_then (read_cell env block) (\<lambda>c. and_then (read_ncs env block)
        (\<lambda>ops. and_then (get_anisotropic_u env block) (f c ops))))" for f
      by (intro isl_and_then_next isl_and_then_first)
  next
    assume "\<forall>am. isl (atom_loop env am
           \<lparr>bs_models = [], cur_model = None, cur_chain = None, cur_resi = None\<rparr>
           (rows_of (atom_table block)))"
    then show "isl (and_then (read_cell env block) (\<lambda>c. and_then (read_ncs env block)
        (\<lambda>ops. and_then (get_anisotropic_u env block) (\<lambda>aniso_map.
           and_then (atom_loop env aniso_map
             \<lparr>bs_models = [], cur_model = None, cur_chain = None, cur_resi = None\<rparr>
             (rows_of (atom_table block))) (f c ops aniso_map)))))" for f
      by (intro isl_and_then_next isl_and_then_first) simp
  qed
qed

theorem malformed_number_aborts_witness:
  "isl (structure_from_cif_block (ex_env True)
          (ex_block [(''_atom_site.'', [ex_atom_row, ex_row_bad_x])]))"
  by (rule malformed_number_aborts)
     (simp add: required_number_fails_def atom_table_def ex_block_def rows_of_def
        as_number_def ex_row_bad_x_def ex_simps)

section \<open>Chain linkage\<close>

lemma find_or_add_prefix:
  assumes "P fresh" and "find_or_add P fresh xs = (xs', i)"
  shows "i < length xs' \<and> P (xs' ! i) \<and> prefix xs xs'"
  using assms
  by (auto simp: find_or_add_def nth_append dest: first_index_Some split: option.splits)

lemma linked_prefix:
  assumes "linked env t es ch ch'" and "prefix es es2"
  shows "linked env t es2 ch ch'"
proof -
  from assms(2) obtain zs where "es2 = es @ zs"
    by (auto simp: prefix_def)
  with assms(1) show ?thesis
    by (auto simp: linked_def nth_append split: sum.splits option.splits)
qed

lemma link_chain_spec:
  "\<exists>es' ch'. link_chain env t es ch = Inr (es', ch') \<and> linked env t es' ch ch' \<and>
      prefix es es' \<and> (t = None \<longrightarrow> es' = es \<and> entity ch' = None)"
proof (cases "find_row t (chain_name ch)")
  case (Inl e)
  then have "e = RuntimeError"
    by (auto simp: find_row_def split: option.splits)
  with Inl show ?thesis
    by (simp add: link_chain_def linked_def)
next
  case (Inr r)
  obtain es' i where f: "find_or_add_entity es (as_string env (r 1)) = (es', i)"
    by (cases "find_or_add_entity es (as_string env (r 1))")
  from find_or_add_prefix [OF _ f [unfolded find_or_add_entity_def]]
  have "i < length es'" "entity_id (es' ! i) = as_string env (r 1)" "prefix es es'"
    by simp_all
  moreover from Inr have "t \<noteq> None"
    by (cases t) (simp_all add: find_row_def rows_of_def)
  ultimately show ?thesis
    using Inr f by (simp add: link_chain_def linked_def)
qed

lemma link_chains_spec:
  "\<exists>es' cs'. link_chains env t es cs = Inr (es', cs') \<and>
      list_all2 (linked env t es') cs cs' \<and> prefix es es' \<and>
      (t = None \<longrightarrow> es' = es \<and> list_all (\<lambda>c. entity c = None) cs')"
proof (induction cs arbitrary: es)
  case Nil
  then show ?case by simp
next
  case (Cons ch cs)
  obtain es1 ch' where 1: "link_chain env t es ch = Inr (es1, ch')"
    "linked env t es1 ch ch'" "prefix es es1" "t = None \<longrightarrow> es1 = es \<and> entity ch' = None"
    using link_chain_spec [of env t es ch] by blast
  obtain es2 cs' where 2: "link_chains env t es1 cs = Inr (es2, cs')"
    "list_all2 (linked env t es2) cs cs'" "prefix es1 es2"
    "t = None \<longrightarrow> es2 = es1 \<and> list_all (\<lambda>c. entity c = None) cs'"
    using Cons.IH [of es1] by blast
  from 1(2) 2(3) have "linked env t es2 ch ch'"
    by (rule linked_prefix)
  moreover from 1(3) 2(3) have "prefix es es2"
    by (rule prefix_order.trans)
  ultimately show ?case
    using 1 2 by simp
qed

lemma model_linked_prefix:
  "model_linked env t es m m' \<Longrightarrow> prefix es es2 \<Longrightarrow> model_linked env t es2 m m'"
  unfolding model_linked_def
  by (auto elim!: list_all2_mono intro: linked_prefix)

text \<open>
  C6. The linkage step, run on the model list the atom loop has built, returns for
  every table and every model list: it never ends in an error. It changes nothing
  of a chain but its entity reference, and keeps the entities it was given. For
  every chain of every model, when a row of the table has the chain's name (a raw
  cell compared with the stored name), the reference is bound to an entity of the
  resulting list whose id is that row's entity id read as a string, found or
  appended; when no row has it, the reference is unset. When the table is absent
  every reference is unset and no entity is added.
\<close>

theorem chain_linkage_never_raises:
  "\<exists>es' ms'. link_models env t es ms = Inr (es', ms') \<and>
      list_all2 (model_linked env t es') ms ms' \<and> prefix es es' \<and>
      (t = None \<longrightarrow> es' = es \<and> list_all (\<lambda>m. list_all (\<lambda>c. entity c = None) (chains m)) ms')"
proof (induction ms arbitrary: es)
  case Nil
  then show ?case by simp
next
  case (Cons md ms)
  obtain es1 cs' where 1: "link_chains env t es (chains md) = Inr (es1, cs')"
    "list_all2 (linked env t es1) (chains md) cs'" "prefix es es1"
    "t = None \<longrightarrow> es1 = es \<and> list_all (\<lambda>c. entity c = None) cs'"
    using link_chains_spec [of env t es "chains md"] by blast
  obtain es2 ms' where 2: "link_models env t es1 ms = Inr (es2, ms')"
    "list_all2 (model_linked env t es2) ms ms'" "prefix es1 es2"
    "t = None \<longrightarrow> es2 = es1 \<and> list_all (\<lambda>m. list_all (\<lambda>c. entity c = None) (chains m)) ms'"
    using Cons.IH [of es1] by blast
  from 1(2) have "model_linked env t es1 md (md\<lparr>chains := cs'\<rparr>)"
    by (simp add: model_linked_def)
  from this 2(3) have "model_linked env t es2 md (md\<lparr>chains := cs'\<rparr>)"
    by (rule model_linked_prefix)
  moreover from 1(3) 2(3) have "prefix es es2"
    by (rule prefix_order.trans)
  ultimately show ?case
    using 1 2 by simp
qed

theorem chain_linkage_never_raises_witness:
  "(\<exists>es' ms'. link_models (ex_env True) ex_struct_asym [] ex_models = Inr (es', ms') \<and>
      map entity_id es' = [''1''] \<and>
      entity_refs ms' = [[Some 0, Some 0, None], [Some 0]]) \<and>
   (\<exists>es' ms'. link_models (ex_env True) None [] ex_models = Inr (es', ms') \<and>
      es' = [] \<and> entity_refs ms' = [[None, None, None], [None]])"
proof -
  obtain es1 ms1 where 1: "link_models (ex_env True) ex_struct_asym [] ex_models = Inr (es1, ms1)"
    using chain_linkage_never_raises [of "ex_env True" ex_struct_asym "[]" ex_models] by blast
  obtain es2 ms2 where 2: "link_models (ex_env True) None [] ex_models = Inr (es2, ms2)"
    and "None = (None :: TableView) \<longrightarrow> es2 = []"
    using chain_linkage_never_raises [of "ex_env True" None "[]" ex_models] by blast
  have "map_sum id (\<lambda>(es, ms). (map entity_id es, entity_refs ms))
          (link_models (ex_env True) ex_struct_asym [] ex_models) =
        Inr ([''1''], [[Some 0, Some 0, None], [Some 0]])"
    by (simp add: ex_models_def ex_struct_asym_def ex_chain_def entity_refs_def link_chain_def
        find_row_def rows_of_def find_or_add_entity_def find_or_add_def cells_def ex_env_def
        ex_null_def)
  with 1 have a: "map entity_id es1 = [''1'']"
    "entity_refs ms1 = [[Some 0, Some 0, None], [Some 0]]"
    by simp_all
  have "map_sum id (\<lambda>(es, ms). (es, entity_refs ms))
          (link_models (ex_env True) None [] ex_models) =
        Inr ([], [[None, None, None], [None]])"
    by (simp add: ex_models_def ex_chain_def entity_refs_def link_chain_def
        find_row_def rows_of_def)
  with 2 have b: "es2 = []" "entity_refs ms2 = [[None, None, None], [None]]"
    by simp_all
  from a b show ?thesis by (simp add: 1 2)
qed

section \<open>The fixed-precision formatter\<close>

declare digits.simps [simp del]

lemma is_digit_digit: "is_digit (digit d)"
proof -
  have "d mod 10 < length ''0123456789''" by simp
  then have "''0123456789'' ! (d mod 10) \<in> set ''0123456789''"
    by (rule nth_mem)
  then show ?thesis by (simp only: is_digit_def digit_def)
qed

lemma length_pad: "length (pad k n) = k"
  by (induction k arbitrary: n) simp_all

lemma digits_pad: "list_all is_digit (pad k n)"
  by (induction k arbitrary: n) (simp_all add: is_digit_digit)

lemma digits_digits: "list_all is_digit (digits n)"
proof (induction n rule: digits.induct)
  case (1 n)
  then show ?case
    by (subst digits.simps) (simp add: is_digit_digit)
qed

lemma digit_not_point: "is_digit c \<Longrightarrow> c \<noteq> CHR ''.''"
  by (auto simp: is_digit_def)

lemma frac_part_text_f:
  "frac_part (text_f fe prec (Finite x)) = pad prec (round_dec fe (\<bar>x\<bar> * 10 ^ prec) mod 10 ^ prec)"
proof -
  let ?n = "round_dec fe (\<bar>x\<bar> * 10 ^ prec)"
  let ?head = "(if x < 0 then ''-'' else []) @ digits (?n div 10 ^ prec)"
  have head: "\<forall>c\<in>set ?head. c \<noteq> CHR ''.''"
    using digits_digits [of "?n div 10 ^ prec"]
    by (auto simp: list_all_iff dest: digit_not_point)
  show ?thesis
  proof (cases "prec = 0")
    case True
    have "text_f fe prec (Finite x) = ?head"
      using True by (simp add: text_f_def Let_def)
    moreover have "dropWhile (\<lambda>c. c \<noteq> CHR ''.'') ?head = []"
      using head by (simp only: dropWhile_eq_Nil_conv)
    ultimately have "frac_part (text_f fe prec (Finite x)) = []"
      by (simp only: frac_part_def list.case)
    with True show ?thesis by simp
  next
    case False
    have "text_f fe prec (Finite x) = ?head @ CHR ''.'' # pad prec (?n mod 10 ^ prec)"
      using False by (simp add: text_f_def Let_def)
    moreover have "dropWhile (\<lambda>c. c \<noteq> CHR ''.'') (?head @ CHR ''.'' # pad prec (?n mod 10 ^ prec))
        = CHR ''.'' # pad prec (?n mod 10 ^ prec)"
      by (subst dropWhile_append2) (use head in auto)
    ultimately show ?thesis
      by (simp only: frac_part_def list.case)
  qed
qed

lemma pad_numeral:
  "pad (numeral k) n = pad (pred_numeral k) (n div 10) @ [digit n]"
  by (simp only: numeral_eq_Suc [of k] pad.simps)

lemma std_string_sprintf:
  "and_then (gstb_sprintf cap txt) (\<lambda>r. Inr (std_string r)) =
     (if length txt + 1 \<le> cap then Inr txt else Inl BufferOverrun)"
  by (simp add: gstb_sprintf_def std_string_def)

text \<open>
  C8 (amended). For a precision from 0 to 6, \<^verbatim>\<open>to_str_prec\<close> uses the fixed
  conversion exactly when the value is finite with magnitude below 1e8, and the
  general conversion otherwise: for a magnitude of 1e8 or more (1e8 itself
  included), an infinity or NaN. Either text is returned when it fits the 16-byte
  buffer with its terminator. Whenever a value of magnitude below 1e8 yields a text,
  that text shows exactly as many digits after the decimal point as the precision
  (and no point for precision 0). A precision below 0 or above 6 is rejected by the
  static assertion.
\<close>

theorem fixed_precision_digits:
  "(0 \<le> prec \<and> prec < 7 \<longrightarrow>
      to_str_prec fe prec d =
        (if (case d of Finite x \<Rightarrow> \<bar>x\<bar> < 100000000 | _ \<Rightarrow> False)
         then if length (text_f fe (nat prec) d) + 1 \<le> 16
              then Inr (text_f fe (nat prec) d) else Inl BufferOverrun
         else if length (text_g fe d) + 1 \<le> 16
              then Inr (text_g fe d) else Inl BufferOverrun)) \<and>
   (0 \<le> prec \<and> prec < 7 \<and> \<bar>x\<bar> < 100000000 \<and> to_str_prec fe prec (Finite x) = Inr s \<longrightarrow>
      length (frac_part s) = nat prec \<and> list_all is_digit (frac_part s)) \<and>
   (prec < 0 \<or> 7 \<le> prec \<longrightarrow> to_str_prec fe prec d = Inl StaticAssertFailed)"
proof -
  have a: "to_str_prec fe prec d =
        (if (case d of Finite x \<Rightarrow> \<bar>x\<bar> < 100000000 | _ \<Rightarrow> False)
         then if length (text_f fe (nat prec) d) + 1 \<le> 16
              then Inr (text_f fe (nat prec) d) else Inl BufferOverrun
         else if length (text_g fe d) + 1 \<le> 16
              then Inr (text_g fe d) else Inl BufferOverrun)"
    if "0 \<le> prec \<and> prec < 7" for d
    using that
    by (cases d) (auto simp: to_str_prec_def std_string_sprintf dgt_def dlt_def abs_less_iff)
  have b: "length (frac_part s) = nat prec \<and> list_all is_digit (frac_part s)"
    if "0 \<le> prec \<and> prec < 7 \<and> \<bar>x\<bar> < 100000000 \<and> to_str_prec fe prec (Finite x) = Inr s"
  proof -
    from that a [of "Finite x"] have "s = text_f fe (nat prec) (Finite x)"
      by (auto split: if_splits)
    then show ?thesis
      by (simp add: frac_part_text_f length_pad digits_pad)
  qed
  have c: "to_str_prec fe prec d = Inl StaticAssertFailed" if "prec < 0 \<or> 7 \<le> prec"
    using that by (auto simp: to_str_prec_def)
  from a b c show ?thesis by blast
qed

lemmas fmt_simps = text_f_def ex_fmt_def Let_def digits.simps digit_def pad_numeral

theorem fixed_precision_digits_witness:
  "to_str_prec ex_fmt 3 (Finite (- (5 / 4))) = Inr ''-1.250'' \<and>
   frac_part ''-1.250'' = ''250'' \<and>
   to_str_prec ex_fmt 3 (Finite 100000000) = Inr ''1e+08'' \<and>
   to_str_prec ex_fmt 7 (Finite (- (5 / 4))) = Inl StaticAssertFailed"
proof -
  note t = fixed_precision_digits [of 3 ex_fmt "Finite (- (5 / 4))" "- (5 / 4)" "''-1.250''"]
  have shown: "text_f ex_fmt 3 (Finite (- (5 / 4))) = ''-1.250''"
    by (simp add: fmt_simps)
  from t have "to_str_prec ex_fmt 3 (Finite (- (5 / 4))) =
      (if length (text_f ex_fmt (nat 3) (Finite (- (5 / 4)))) + 1 \<le> 16
       then Inr (text_f ex_fmt (nat 3) (Finite (- (5 / 4)))) else Inl BufferOverrun)"
    by simp
  then have a: "to_str_prec ex_fmt 3 (Finite (- (5 / 4))) = Inr ''-1.250''"
    by (simp add: shown)
  from t a have "length (frac_part ''-1.250'') = nat 3"
    by simp
  have b: "frac_part ''-1.250'' = ''250''"
    by (simp add: frac_part_def)
  from fixed_precision_digits [of 3 ex_fmt "Finite 100000000" 0 "[]"]
  have c: "to_str_prec ex_fmt 3 (Finite 100000000) = Inr ''1e+08''"
    by (simp add: ex_fmt_def)
  from fixed_precision_digits [of 7 ex_fmt "Finite (- (5 / 4))" 0 "[]"]
  have d: "to_str_prec ex_fmt 7 (Finite (- (5 / 4))) = Inl StaticAssertFailed"
    by simp
  from a b c d show ?thesis by simp
qed

text \<open>
  At 1e8 itself, a magnitude that does not exceed 1e8, the general conversion is
  used and not the fixed one.
\<close>

theorem fixed_precision_digits_counterexample:
  "to_str_prec ex_fmt 3 (Finite 100000000) = Inr ''1e+08'' \<and>
   text_f ex_fmt 3 (Finite 100000000) = ''100000000.000'' \<and>
   \<not> \<bar>100000000 :: real\<bar> > 100000000"
  by (simp add: to_str_prec_def dgt_def dlt_def gstb_sprintf_def std_string_def fmt_simps)

text \<open>
  A text the buffer does not hold: precision 6 and the value -12345678.5 give 16
  characters, and the terminator is the 17th byte.
\<close>

lemma to_str_prec_overrun:
  "text_f ex_fmt 6 (Finite (- (24691357 / 2))) = ''-12345678.500000'' \<and>
   to_str_prec ex_fmt 6 (Finite (- (24691357 / 2))) = Inl BufferOverrun"
  by (simp add: to_str_prec_def dgt_def dlt_def gstb_sprintf_def std_string_def fmt_simps)

end
